theory Spec2Isabelle
  imports Main
begin

section \<open>Strings\<close>

text \<open>
  A JavaScript string is modelled as a \<^typ>\<open>string\<close>, one \<^typ>\<open>char\<close> per code unit
  (so the model covers the code units 0 to 255). The functions of this section are the
  \<^verbatim>\<open>String.prototype\<close> methods the modelled code calls.
\<close>

text \<open>\<^verbatim>\<open>s.split(sep)\<close> for a one-character separator: never empty, \<^verbatim>\<open>''.split('-')\<close> is \<^verbatim>\<open>['']\<close>.\<close>

fun splitOn :: "char \<Rightarrow> string \<Rightarrow> string list" where
  "splitOn sep [] = [[]]"
| "splitOn sep (c # cs) =
     (if c = sep then [] # splitOn sep cs
      else (case splitOn sep cs of
              [] \<Rightarrow> [[c]]
            | p # ps \<Rightarrow> (c # p) # ps))"

text \<open>\<^verbatim>\<open>parts.join(sep)\<close>, which is also what a template literal
  \<^verbatim>\<open>`${a}-${b}-${c}`\<close> computes from its parts.\<close>

fun joinWith :: "char \<Rightarrow> string list \<Rightarrow> string" where
  "joinWith sep [] = []"
| "joinWith sep [p] = p"
| "joinWith sep (p # q # ps) = p @ sep # joinWith sep (q # ps)"

text \<open>\<^verbatim>\<open>s[i] || ''\<close>: the one-character string at index \<open>i\<close>, or the empty string when
  the index is out of range (\<^verbatim>\<open>undefined || ''\<close>).\<close>

definition charAtOrEmpty :: "string \<Rightarrow> nat \<Rightarrow> string" where
  "charAtOrEmpty s i = (if i < length s then [s ! i] else [])"

text \<open>\<^verbatim>\<open>s.slice(0, -1)\<close>: everything but the last code unit; empty for the empty string.\<close>

definition sliceInit :: "string \<Rightarrow> string" where
  "sliceInit s = take (length s - 1) s"

text \<open>\<^verbatim>\<open>s.slice(-1)\<close>: the last code unit as a string; empty for the empty string.\<close>

definition sliceLast :: "string \<Rightarrow> string" where
  "sliceLast s = drop (length s - 1) s"

section \<open>The DMC codec: \<^verbatim>\<open>processDMC\<close>\<close>

record dmc_result =
  dmc :: string
  docType :: string

text \<open>
  \<^verbatim>\<open>processDMC(baseCode)\<close>: a code of nine hyphen-separated parts is re-encoded, every
  other string is returned as it is with document type \<^verbatim>\<open>'descript'\<close>.
\<close>

definition processDMC :: "string \<Rightarrow> dmc_result" where
  "processDMC baseCode =
     (let parts = splitOn CHR ''-'' baseCode in
      if length parts = 9 then
        (let p1 = parts ! 0; p2 = parts ! 1; p3 = parts ! 2; p4 = parts ! 3;
             p5 = parts ! 4; p6 = parts ! 5; p7 = parts ! 6; p8 = parts ! 7;
             p9 = parts ! 8;
             subSystemCode = charAtOrEmpty p4 0;
             subSubSystemCode = charAtOrEmpty p4 1;
             disassyCode = sliceInit p7;
             disassyCodeVariant = sliceLast p7;
             infoCode = sliceInit p8;
             infoCodeVariant = sliceLast p8
         in \<lparr> dmc = p1 @ ''-'' @ p2 @ ''-'' @ p3 @ ''-'' @ subSystemCode @ ''-''
                    @ subSubSystemCode @ ''-'' @ p5 @ ''-'' @ p6 @ ''-'' @ disassyCode
                    @ ''-'' @ disassyCodeVariant @ ''-'' @ infoCode @ ''-''
                    @ infoCodeVariant @ ''-'' @ p9,
              docType = (if infoCode = ''000'' then ''proced'' else ''descript'') \<rparr>)
      else \<lparr> dmc = baseCode, docType = ''descript'' \<rparr>)"

text \<open>The number of hyphen-delimited segments of a code string.\<close>

definition segmentCount :: "string \<Rightarrow> nat" where
  "segmentCount s = length (splitOn CHR ''-'' s)"

text \<open>The twelve parts the template literal of \<^const>\<open>processDMC\<close> joins.\<close>

definition upgradedParts :: "string list \<Rightarrow> string list" where
  "upgradedParts parts =
     [parts ! 0, parts ! 1, parts ! 2,
      charAtOrEmpty (parts ! 3) 0, charAtOrEmpty (parts ! 3) 1,
      parts ! 4, parts ! 5,
      sliceInit (parts ! 6), sliceLast (parts ! 6),
      sliceInit (parts ! 7), sliceLast (parts ! 7),
      parts ! 8]"

section \<open>Regular expressions, as \<^verbatim>\<open>cleanupAdocContent\<close> uses them\<close>

text \<open>
  The five patterns of \<^verbatim>\<open>cleanupAdocContent\<close> are sequences of single characters,
  character classes under a quantifier, the assertions \<^verbatim>\<open>^\<close> and \<^verbatim>\<open>$\<close> (always with
  the flag \<^verbatim>\<open>m\<close>) and one capture group. The matcher below is the backtracking
  matcher of ECMAScript for these constructs.
\<close>

text \<open>A line terminator (\<^verbatim>\<open>\n\<close>, \<^verbatim>\<open>\r\<close>): what \<^verbatim>\<open>.\<close> does not match and where
  \<^verbatim>\<open>^\<close> and \<^verbatim>\<open>$\<close> match under the flag \<^verbatim>\<open>m\<close>.\<close>

definition isLineTerminator :: "char \<Rightarrow> bool" where
  "isLineTerminator c = (c = CHR 0x0A \<or> c = CHR 0x0D)"

text \<open>White space as \<^verbatim>\<open>\s\<close> and \<^verbatim>\<open>trim()\<close> read it: tab, line feed, vertical tab, form
  feed, carriage return, space and the no-break space.\<close>

definition isWhiteSpace :: "char \<Rightarrow> bool" where
  "isWhiteSpace c = (c = CHR 0x09 \<or> c = CHR 0x0A \<or> c = CHR 0x0B \<or> c = CHR 0x0C
                     \<or> c = CHR 0x0D \<or> c = CHR 0x20 \<or> c = CHR 0xA0)"

datatype atom =
    Dot           \<comment> \<open>\<^verbatim>\<open>.\<close>\<close>
  | Space         \<comment> \<open>\<^verbatim>\<open>\s\<close>\<close>
  | Lit char      \<comment> \<open>a literal character\<close>

fun atomMatches :: "atom \<Rightarrow> char \<Rightarrow> bool" where
  "atomMatches Dot c = (\<not> isLineTerminator c)"
| "atomMatches Space c = isWhiteSpace c"
| "atomMatches (Lit l) c = (c = l)"

datatype item =
    Chr atom          \<comment> \<open>one character\<close>
  | Greedy atom nat   \<comment> \<open>\<^verbatim>\<open>a{n,}\<close>: \<^verbatim>\<open>a*\<close> is \<open>Greedy a 0\<close>, \<^verbatim>\<open>a+\<close> is \<open>Greedy a 1\<close>\<close>
  | Lazy atom nat     \<comment> \<open>\<^verbatim>\<open>a{n,}?\<close>: \<^verbatim>\<open>a+?\<close> is \<open>Lazy a 1\<close>\<close>
  | Bol               \<comment> \<open>\<^verbatim>\<open>^\<close> with the flag \<^verbatim>\<open>m\<close>\<close>
  | Eol               \<comment> \<open>\<^verbatim>\<open>$\<close> with the flag \<^verbatim>\<open>m\<close>\<close>
  | GroupOpen         \<comment> \<open>\<^verbatim>\<open>(\<close> of capture group 1\<close>
  | GroupClose        \<comment> \<open>\<^verbatim>\<open>)\<close> of capture group 1\<close>

text \<open>The state of a match attempt: how many characters it has consumed and where capture
  group 1 starts and ends, counted from the start of the attempt.\<close>

record matchState =
  pos :: nat
  groupStart :: nat
  groupEnd :: nat

text \<open>
  \<open>matchItems re prev s st\<close> runs the pattern \<open>re\<close> at a position of the input whose
  preceding character is \<open>prev\<close> (\<open>None\<close> at the start of the input) and whose remaining
  text is \<open>s\<close>. A greedy quantifier first tries one more character and, when the rest of the
  pattern fails after it, goes on without it; a lazy one tries the rest of the pattern first.
\<close>

function matchItems :: "item list \<Rightarrow> char option \<Rightarrow> string \<Rightarrow> matchState \<Rightarrow> matchState option" where
  "matchItems [] prev s st = Some st"
| "matchItems (Chr a # re) prev [] st = None"
| "matchItems (Chr a # re) prev (c # cs) st =
     (if atomMatches a c then matchItems re (Some c) cs (st\<lparr>pos := pos st + 1\<rparr>) else None)"
| "matchItems (Bol # re) prev s st =
     (if (case prev of None \<Rightarrow> True | Some p \<Rightarrow> isLineTerminator p)
      then matchItems re prev s st else None)"
| "matchItems (Eol # re) prev s st =
     (if (case s of [] \<Rightarrow> True | c # cs \<Rightarrow> isLineTerminator c)
      then matchItems re prev s st else None)"
| "matchItems (GroupOpen # re) prev s st = matchItems re prev s (st\<lparr>groupStart := pos st\<rparr>)"
| "matchItems (GroupClose # re) prev s st = matchItems re prev s (st\<lparr>groupEnd := pos st\<rparr>)"
| "matchItems (Greedy a n # re) prev [] st =
     (if n = 0 then matchItems re prev [] st else None)"
| "matchItems (Greedy a n # re) prev (c # cs) st =
     (if atomMatches a c then
        (case matchItems (Greedy a (n - 1) # re) (Some c) cs (st\<lparr>pos := pos st + 1\<rparr>) of
           Some r \<Rightarrow> Some r
         | None \<Rightarrow> if n = 0 then matchItems re prev (c # cs) st else None)
      else if n = 0 then matchItems re prev (c # cs) st else None)"
| "matchItems (Lazy a n # re) prev [] st =
     (if n = 0 then matchItems re prev [] st else None)"
| "matchItems (Lazy a n # re) prev (c # cs) st =
     (if n = 0 then
        (case matchItems re prev (c # cs) st of
           Some r \<Rightarrow> Some r
         | None \<Rightarrow> if atomMatches a c
                   then matchItems (Lazy a 0 # re) (Some c) cs (st\<lparr>pos := pos st + 1\<rparr>)
                   else None)
      else if atomMatches a c
           then matchItems (Lazy a (n - 1) # re) (Some c) cs (st\<lparr>pos := pos st + 1\<rparr>)
           else None)"
  by pat_completeness auto
termination
  by (relation "measures [\<lambda>(re, prev, s, st). length s, \<lambda>(re, prev, s, st). length re]") auto

text \<open>What a match is replaced with: a fixed text, or \<^verbatim>\<open>'$1'\<close>, the text of capture
  group 1.\<close>

datatype replacement = Fixed string | Group1

fun replacementText :: "replacement \<Rightarrow> string \<Rightarrow> matchState \<Rightarrow> string" where
  "replacementText (Fixed t) s st = t"
| "replacementText Group1 s st = take (groupEnd st - groupStart st) (drop (groupStart st) s)"

text \<open>
  \<^verbatim>\<open>s.replace(/re/g, rep)\<close>: at each position from the left the pattern is tried; where it
  matches, the match is replaced and the search goes on after it (one character further
  when the match is empty); where it does not, the character is kept.
\<close>

function replaceFrom :: "item list \<Rightarrow> replacement \<Rightarrow> char option \<Rightarrow> string \<Rightarrow> string" where
  "replaceFrom re rep prev [] =
     (case matchItems re prev [] \<lparr>pos = 0, groupStart = 0, groupEnd = 0\<rparr> of
        None \<Rightarrow> []
      | Some st \<Rightarrow> replacementText rep [] st)"
| "replaceFrom re rep prev (c # cs) =
     (case matchItems re prev (c # cs) \<lparr>pos = 0, groupStart = 0, groupEnd = 0\<rparr> of
        None \<Rightarrow> c # replaceFrom re rep (Some c) cs
      | Some st \<Rightarrow>
          if pos st = 0
          then replacementText rep (c # cs) st @ c # replaceFrom re rep (Some c) cs
          else replacementText rep (c # cs) st
               @ replaceFrom re rep (Some ((c # cs) ! (pos st - 1))) (drop (pos st) (c # cs)))"
  by pat_completeness auto
termination
  by (relation "measure (\<lambda>(re, rep, prev, s). length s)") auto

definition replaceAll :: "item list \<Rightarrow> replacement \<Rightarrow> string \<Rightarrow> string" where
  "replaceAll re rep s = replaceFrom re rep None s"

section \<open>The content normalizer: \<^verbatim>\<open>cleanupAdocContent\<close>\<close>

text \<open>\<^verbatim>\<open>/(.+?)\s*\+\s*$/gm\<close>\<close>

definition trailingPlus :: "item list" where
  "trailingPlus = [GroupOpen, Lazy Dot 1, GroupClose, Greedy Space 0, Chr (Lit CHR ''+''),
                   Greedy Space 0, Eol]"

text \<open>\<^verbatim>\<open>/^\s*\{plus\}\s*$/gm\<close>\<close>

definition standalonePlus :: "item list" where
  "standalonePlus = [Bol, Greedy Space 0, Chr (Lit CHR ''{''), Chr (Lit CHR ''p''),
                     Chr (Lit CHR ''l''), Chr (Lit CHR ''u''), Chr (Lit CHR ''s''),
                     Chr (Lit CHR ''}''), Greedy Space 0, Eol]"

text \<open>\<^verbatim>\<open>/(--\n)\s+/g\<close>\<close>

definition afterOpening :: "item list" where
  "afterOpening = [GroupOpen, Chr (Lit CHR ''-''), Chr (Lit CHR ''-''), Chr (Lit CHR 0x0A),
                   GroupClose, Greedy Space 1]"

text \<open>\<^verbatim>\<open>/\s+(\n--)/g\<close>\<close>

definition beforeClosing :: "item list" where
  "beforeClosing = [Greedy Space 1, GroupOpen, Chr (Lit CHR 0x0A), Chr (Lit CHR ''-''),
                    Chr (Lit CHR ''-''), GroupClose]"

text \<open>\<^verbatim>\<open>/\s*^\s*-{3,}\s*$\s*/gm\<close>\<close>

definition thematicBreak :: "item list" where
  "thematicBreak = [Greedy Space 0, Bol, Greedy Space 0, Greedy (Lit CHR ''-'') 3,
                    Greedy Space 0, Eol, Greedy Space 0]"

definition cleanupAdocContent :: "string \<Rightarrow> string" where
  "cleanupAdocContent content =
     (let content = replaceAll trailingPlus Group1 content;
          content = replaceAll standalonePlus (Fixed ''+'') content;
          content = replaceAll afterOpening Group1 content;
          content = replaceAll beforeClosing Group1 content;
          content = replaceAll thematicBreak
                      (Fixed [CHR 0x0A, CHR 0x0A, CHR ''-'', CHR ''-'', CHR ''-'', CHR 0x0A, CHR 0x0A])
                      content
      in content)"

section \<open>The document assembler\<close>

text \<open>The text of a template literal, given line by line: every line ends with a line
  feed.\<close>

definition templateLines :: "string list \<Rightarrow> string" where
  "templateLines ls = concat (map (\<lambda>l. l @ ''\<newline>'') ls)"

text \<open>The lines of the procedural header after its first two lines.\<close>

definition procedHeaderRest :: "string list" where
  "procedHeaderRest =
     ['':dm-type: procedural'',
      '':issue-number: 001'',
      '':issue-date: 2023-10-26'',
      '':tech-name: Comprehensive Converter Test Procedure'',
      '':dm-title: Step-by-Step Guide'',
      '':revdate: 2025-09-02'',
      '':in-work: 00'',
      '':lang: en'',
      '':country-code: IN'',
      '':security-classification: 01'',
      '':responsible-partner-company: LNTDEFENCE'',
      '':enterprise-code-rpc: 1671Y'',
      '':originator-enterprise: LNTDEFENCE'',
      '':enterprise-code-originator: 1671Y'',
      '':applicability: All applicable units and serial numbers.'',
      '':brex-dmc: DMC-GSV-H-041-1-0-0301-00-A-022-A-D'',
      '':reason-for-update: Initial draft for demonstration purposes.'',
      '':s1000d-schema-base-path: http://www.s1000d.org/S1000D_4-2/xml_schema_flat/'',
      '''',
      ''[[prelim_reqs]]'',
      ''== Preliminary Requirements'',
      '''',
      ''[[required_conditions_pr]]'',
      ''=== Required Conditions'',
      '''',
      ''[[required_persons_pr]]'',
      ''=== Required Persons'',
      '''',
      ''[[required_tech_info_pr]]'',
      ''=== Required Technical Information'',
      '''',
      ''[[required_equip_pr]]'',
      ''=== Required Support Equipment'',
      '''',
      ''[[required_supplies_pr]]'',
      ''=== Required Supplies'',
      '''',
      ''[[required_spares_pr]]'',
      ''=== Required Spares'',
      '''',
      ''[[required_safety_pr]]'',
      ''=== Required Safety'',
      '''',
      ''[[main_proc_steps]]'',
      ''== Main Procedure'',
      '''']"

text \<open>The lines of the descriptive header after its first line.\<close>

definition descriptHeaderRest :: "string list" where
  "descriptHeaderRest =
     ['':dm-type: descript'',
      '':issue-number: 001'',
      '':dm-title: Sample Descriptive Module'',
      '':revdate: 2025-09-02'',
      '':in-work: 00'',
      '':lang: en'',
      '':country-code: IN'',
      '':security-classification: 01'',
      '':responsible-partner-company: LNTDEFENCE'',
      '':enterprise-code-rpc: 1671Y'',
      '':originator-enterprise: LNTDEFENCE'',
      '':enterprise-code-originator: 1671Y'',
      '':applicability: All applicable units and serial numbers.'',
      '':brex-dmc: DMC-GSV-H-041-1-0-0301-00-A-022-A-D'',
      '':reason-for-update: Initial draft for demonstration purposes.'',
      '''']"

text \<open>\<^verbatim>\<open>createS1000DHeader(dmc, docType)\<close>: the procedural template for the document type
  \<^verbatim>\<open>'proced'\<close>, the descriptive one for every other value.\<close>

definition createS1000DHeader :: "string \<Rightarrow> string \<Rightarrow> string" where
  "createS1000DHeader dmcCode docTypeName =
     (if docTypeName = ''proced''
      then templateLines (''= My Procedural Data Module'' # ('':dmc: DMC-'' @ dmcCode) # procedHeaderRest)
      else templateLines (('':dmc: DMC-'' @ dmcCode) # descriptHeaderRest))"

text \<open>\<^verbatim>\<open>createProceduralFooter()\<close>\<close>

definition createProceduralFooter :: string where
  "createProceduralFooter =
     templateLines
       ['''',
        '''',
        ''[[closeout_reqs]]'',
        ''== Closeout Requirements'',
        '''',
        ''[[closeout_conds_after]]'',
        ''=== Required Conditions After Job Completion'',
        '''']"

text \<open>\<^verbatim>\<open>s.startsWith(pat)\<close> and \<^verbatim>\<open>s.includes(pat)\<close>\<close>

definition startsWith :: "string \<Rightarrow> string \<Rightarrow> bool" where
  "startsWith s pat = (take (length pat) s = pat)"

fun includesStr :: "string \<Rightarrow> string \<Rightarrow> bool" where
  "includesStr [] pat = (pat = [])"
| "includesStr (c # cs) pat = (startsWith (c # cs) pat \<or> includesStr cs pat)"

text \<open>\<^verbatim>\<open>s.replace(pat, rep)\<close> for a string pattern: the first occurrence of \<open>pat\<close> is
  replaced (\<open>rep\<close> holds no \<^verbatim>\<open>$\<close>).\<close>

fun replaceFirst :: "string \<Rightarrow> string \<Rightarrow> string \<Rightarrow> string" where
  "replaceFirst pat rep [] = (if pat = [] then rep else [])"
| "replaceFirst pat rep (c # cs) =
     (if startsWith (c # cs) pat then rep @ drop (length pat) (c # cs)
      else c # replaceFirst pat rep cs)"

text \<open>
  The text \<^verbatim>\<open>convertDocxToAdoc\<close> writes (its \<^verbatim>\<open>finalContent\<close>), from the text Pandoc
  produced (\<open>content\<close>), the input file's name without directory and extension
  (\<open>filename\<close>) and the option \<^verbatim>\<open>docType\<close> (\<open>None\<close> when the caller gave none: the
  destructuring default \<^verbatim>\<open>'descript'\<close> applies). The document type \<^verbatim>\<open>processDMC\<close>
  computes is not used: only its code is.
\<close>

definition finalContent :: "string \<Rightarrow> string \<Rightarrow> string option \<Rightarrow> string" where
  "finalContent content filename docTypeOption =
     (let docTypeName = (case docTypeOption of None \<Rightarrow> ''descript'' | Some d \<Rightarrow> d);
          baseCode = replaceFirst ''DMC-'' '''' filename;
          dmcCode = dmc (processDMC baseCode);
          header = createS1000DHeader dmcCode docTypeName;
          cleanedContent = cleanupAdocContent content
      in if docTypeName = ''proced''
         then header @ cleanedContent @ createProceduralFooter
         else header @ cleanedContent)"

section \<open>The hierarchy index: \<^verbatim>\<open>filterSystemData\<close>\<close>

text \<open>\<^verbatim>\<open>s.trim()\<close>: white space is removed at both ends.\<close>

definition trim :: "string \<Rightarrow> string" where
  "trim s = rev (dropWhile isWhiteSpace (rev (dropWhile isWhiteSpace s)))"

text \<open>\<^verbatim>\<open>s.toLowerCase()\<close> on the code units 0 to 255: the letters A to Z and the
  capital letters of Latin-1 (0xC0 to 0xDE without the multiplication sign 0xD7) are moved
  up by 32.\<close>

definition toLowerChar :: "char \<Rightarrow> char" where
  "toLowerChar c =
     (let n = (of_char c :: nat)
      in if (65 \<le> n \<and> n \<le> 90) \<or> (192 \<le> n \<and> n \<le> 222 \<and> n \<noteq> 215)
         then char_of (n + 32) else c)"

definition toLowerCase :: "string \<Rightarrow> string" where
  "toLowerCase s = map toLowerChar s"

text \<open>
  A node of the hierarchy as \<^verbatim>\<open>createNode\<close> builds it. The codes a level does not have
  are \<^verbatim>\<open>null\<close> (\<open>None\<close>); \<open>children\<close> is always an array.
\<close>

datatype node = Node
  (level: string)
  (code: string)
  (title: string)
  (definitionText: string)
  (children: "node list")
  (systemCode: "string option")
  (subsystemCode: "string option")
  (label: string)
  (fullCode: string)

text \<open>A value is truthy when it is neither \<^verbatim>\<open>null\<close> nor the empty string.\<close>

definition truthy :: "string option \<Rightarrow> bool" where
  "truthy v = (case v of None \<Rightarrow> False | Some s \<Rightarrow> s \<noteq> [])"

text \<open>\<^verbatim>\<open>createNode(level, code, title, definition, systemCode, subsystemCode, children)\<close>\<close>

definition createNode ::
  "string \<Rightarrow> string \<Rightarrow> string \<Rightarrow> string \<Rightarrow> string option \<Rightarrow> string option \<Rightarrow> node list \<Rightarrow> node" where
  "createNode lv cd ti df sc ssc ch =
     Node lv cd ti df ch sc ssc (cd @ '' - '' @ ti)
       (if truthy sc \<and> truthy ssc then the sc @ ''-'' @ the ssc
        else if truthy sc then the sc else cd)"

text \<open>
  The callback of \<^verbatim>\<open>nodes.map\<close> in \<^verbatim>\<open>filterNodes\<close> (\<open>None\<close> for \<^verbatim>\<open>null\<close>), and
  \<^verbatim>\<open>filterNodes\<close> itself, which drops the \<^verbatim>\<open>null\<close>s (\<^verbatim>\<open>filter(Boolean)\<close>). The
  query is the trimmed, lower-case one.
\<close>

fun filterNode :: "string \<Rightarrow> node \<Rightarrow> node option"
  and filterNodes :: "string \<Rightarrow> node list \<Rightarrow> node list" where
  "filterNode query (Node lv cd ti df ch sc ssc lb fc) =
     (let selfMatch = includesStr (toLowerCase lb) query;
          filteredChildren = filterNodes query ch
      in if selfMatch \<or> length filteredChildren > 0
         then Some (Node lv cd ti df (if selfMatch then ch else filteredChildren) sc ssc lb fc)
         else None)"
| "filterNodes query [] = []"
| "filterNodes query (n # ns) =
     (case filterNode query n of
        None \<Rightarrow> filterNodes query ns
      | Some m \<Rightarrow> m # filterNodes query ns)"

text \<open>\<^verbatim>\<open>filterSystemData(query)\<close>, with the loaded hierarchy \<^verbatim>\<open>fullSystemData\<close> as an
  argument.\<close>

definition filterSystemData :: "string \<Rightarrow> node list \<Rightarrow> node list" where
  "filterSystemData query fullSystemData =
     (let q = toLowerCase (trim query)
      in if q = [] then fullSystemData else filterNodes q fullSystemData)"

text \<open>Whether a node's label matches a query, as \<^const>\<open>filterNode\<close> decides it.\<close>

definition selfMatch :: "string \<Rightarrow> node \<Rightarrow> bool" where
  "selfMatch query n = includesStr (toLowerCase (label n)) query"

text \<open>The nodes below a node: its children, their children, and so on.\<close>

fun descendants :: "node \<Rightarrow> node list" where
  "descendants (Node lv cd ti df ch sc ssc lb fc) = concat (map (\<lambda>c. c # descendants c) ch)"

text \<open>\<^verbatim>\<open>{ ...node, children: ch }\<close>: a copy of the node with other children.\<close>

definition withChildren :: "node \<Rightarrow> node list \<Rightarrow> node" where
  "withChildren n ch =
     Node (level n) (code n) (title n) (definitionText n) ch (systemCode n) (subsystemCode n)
          (label n) (fullCode n)"

text \<open>Two small hierarchies for the examples: a group whose own label holds "brake", and
  a group with a "Brake Assembly" leaf two levels down.\<close>

definition wheelSystem :: node where
  "wheelSystem = createNode ''system'' ''10'' ''Wheel'' '''' (Some ''10'') None []"

definition brakesGroup :: node where
  "brakesGroup = createNode ''group'' ''B'' ''Brakes'' '''' (Some ''B'') None [wheelSystem]"

definition brakeAssembly :: node where
  "brakeAssembly =
     createNode ''subsystem'' ''32-40'' ''Brake Assembly'' '''' (Some ''32'') (Some ''3240'') []"

definition gearGroup :: node where
  "gearGroup =
     createNode ''group'' ''A'' ''Airframe'' '''' (Some ''A'') None
       [createNode ''system'' ''32'' ''Landing Gear'' '''' (Some ''32'') None
          [brakeAssembly,
           createNode ''subsystem'' ''32-50'' ''Steering'' '''' (Some ''32'') (Some ''3250'') []],
        createNode ''system'' ''21'' ''Air Conditioning'' '''' (Some ''21'') None []]"

section \<open>The DM code generator: \<^verbatim>\<open>updateResult\<close>\<close>

text \<open>The value of a digit or letter as a digit of \<^verbatim>\<open>parseInt\<close>.\<close>

definition digitValue :: "char \<Rightarrow> nat option" where
  "digitValue c =
     (let n = (of_char c :: nat)
      in if 48 \<le> n \<and> n \<le> 57 then Some (n - 48)
         else if 97 \<le> n \<and> n \<le> 122 then Some (n - 87)
         else if 65 \<le> n \<and> n \<le> 90 then Some (n - 55)
         else None)"

definition isDigitOf :: "nat \<Rightarrow> char \<Rightarrow> bool" where
  "isDigitOf radix c = (case digitValue c of None \<Rightarrow> False | Some d \<Rightarrow> d < radix)"

text \<open>
  \<^verbatim>\<open>parseInt(s)\<close> without a radix: leading white space and one sign are skipped, the
  prefix \<^verbatim>\<open>0x\<close> or \<^verbatim>\<open>0X\<close> selects radix 16, and the longest run of digits is read;
  \<open>None\<close> is \<^verbatim>\<open>NaN\<close>. The number is an integer of any size (a JavaScript number is
  exact up to \<open>2^53\<close>).
\<close>

definition parseInt :: "string \<Rightarrow> int option" where
  "parseInt s =
     (let s1 = dropWhile isWhiteSpace s;
          negative = startsWith s1 ''-'';
          s2 = (if startsWith s1 ''-'' \<or> startsWith s1 ''+'' then drop 1 s1 else s1);
          hex = (startsWith s2 ''0x'' \<or> startsWith s2 ''0X'');
          radix = (if hex then 16 else 10);
          s3 = (if hex then drop 2 s2 else s2);
          digits = takeWhile (isDigitOf radix) s3;
          magnitude = foldl (\<lambda>acc c. acc * radix + the (digitValue c)) 0 digits
      in if digits = [] then None
         else Some (if negative then - int magnitude else int magnitude))"

text \<open>\<^verbatim>\<open>String(i)\<close> for a non-negative integer: its decimal digits.\<close>

definition digitChar :: "nat \<Rightarrow> char" where
  "digitChar d = char_of (48 + d)"

function numberToString :: "nat \<Rightarrow> string" where
  "numberToString n =
     (if n < 10 then [digitChar n] else numberToString (n div 10) @ [digitChar (n mod 10)])"
  by pat_completeness auto
termination
  by (relation "measure (\<lambda>n. n)") auto

text \<open>\<^verbatim>\<open>s.padStart(width, c)\<close>: \<open>c\<close> is put in front until the width is reached; a
  string that is long enough is returned as it is.\<close>

definition padStart :: "string \<Rightarrow> nat \<Rightarrow> char \<Rightarrow> string" where
  "padStart s width c = replicate (width - length s) c @ s"

text \<open>
  What \<^verbatim>\<open>updateResult\<close> reads: the values of the input fields, the selections kept in
  the variables of the page, and the inputs of the disassembly-code table, by their
  \<^verbatim>\<open>data-unit\<close> (\<open>None\<close> when \<^verbatim>\<open>querySelector\<close> finds no input).
\<close>

record form =
  modelInput :: string
  sdcInput :: string
  dmvInput :: string
  unitCountInput :: string
  infoCodeVariantInput :: string
  selectedSystemCode :: string
  selectedSubsystemCode :: string
  selectedBaseInfoCode :: string
  dcInput :: "nat \<Rightarrow> string option"

text \<open>\<^verbatim>\<open>parseInt(unitCountInput.value) || 0\<close>\<close>

definition unitCountOf :: "form \<Rightarrow> int" where
  "unitCountOf f = (case parseInt (unitCountInput f) of None \<Rightarrow> 0 | Some n \<Rightarrow> n)"

text \<open>\<^verbatim>\<open>(dcInput ? dcInput.value.trim() : "00").padStart(2, '0')\<close> for the input of unit
  \<open>u\<close>\<close>

definition dcCodeOf :: "form \<Rightarrow> nat \<Rightarrow> string" where
  "dcCodeOf f u = padStart (case dcInput f u of None \<Rightarrow> ''00'' | Some v \<Rightarrow> trim v) 2 CHR ''0''"

text \<open>\<^verbatim>\<open>selectedBaseInfoCode ? `${selectedBaseInfoCode}${infoCodeVariant}` : "000"\<close>\<close>

definition finalInfoCodeOf :: "form \<Rightarrow> string" where
  "finalInfoCodeOf f =
     (if selectedBaseInfoCode f \<noteq> [] then selectedBaseInfoCode f @ trim (infoCodeVariantInput f)
      else ''000'')"

text \<open>The template literal of \<^verbatim>\<open>fullCode\<close>, which both branches of \<^verbatim>\<open>updateResult\<close>
  use, for a unit code and a disassembly code; the item location code is \<^verbatim>\<open>"D"\<close>.\<close>

definition fullCodeOf :: "form \<Rightarrow> string \<Rightarrow> string \<Rightarrow> string" where
  "fullCodeOf f unitCode dcCode =
     (let model = trim (modelInput f); sdc = trim (sdcInput f); dmv = trim (dmvInput f);
          combinedSystemCode = selectedSystemCode f @ ''-'' @ selectedSubsystemCode f;
          itemLocationCode = ''D''
      in model @ ''-'' @ sdc @ ''-'' @ combinedSystemCode @ ''-'' @ unitCode @ ''-''
         @ dcCode @ dmv @ ''-'' @ finalInfoCodeOf f @ ''-'' @ itemLocationCode)"

text \<open>
  The list \<^verbatim>\<open>codes\<close> that \<^verbatim>\<open>updateResult\<close> shows: empty when the model, the SDC or the
  system is missing or the variant has more than one character; one code with unit
  \<^verbatim>\<open>00\<close> when the unit count is not positive; one code for each unit from 1 to the unit
  count otherwise.
\<close>

definition updateResult :: "form \<Rightarrow> string list" where
  "updateResult f =
     (let model = trim (modelInput f); sdc = trim (sdcInput f); dmv = trim (dmvInput f);
          unitCount = unitCountOf f
      in if model = [] \<or> sdc = [] \<or> selectedSystemCode f = [] \<or> length dmv > 1 then []
         else if unitCount \<le> 0 then [fullCodeOf f ''00'' (dcCodeOf f 0)]
         else map (\<lambda>i. fullCodeOf f (padStart (numberToString i) 2 CHR ''0'') (dcCodeOf f i))
                  [1 ..< Suc (nat unitCount)])"

text \<open>A form for the examples: model, SDC and system chosen, no disassembly code entered
  (the table's inputs exist and are empty), and the unit count as given.\<close>

definition exampleForm :: "string \<Rightarrow> string \<Rightarrow> form" where
  "exampleForm modelValue unitCountValue =
     \<lparr> modelInput = modelValue, sdcInput = ''A'', dmvInput = '''',
       unitCountInput = unitCountValue, infoCodeVariantInput = '''',
       selectedSystemCode = ''32'', selectedSubsystemCode = ''40'',
       selectedBaseInfoCode = '''', dcInput = (\<lambda>u. Some '''') \<rparr>"

text \<open>A second form for the examples: the values are typed with blanks around them, a
  variant and an info code are chosen, two units are asked for, and the disassembly code
  \<^verbatim>\<open>5\<close> is entered for unit 2 only.\<close>

definition enteredForm :: form where
  "enteredForm =
     \<lparr> modelInput = '' GSV '', sdcInput = ''A '', dmvInput = '' B'',
       unitCountInput = '' 2'', infoCodeVariantInput = ''A '',
       selectedSystemCode = ''32'', selectedSubsystemCode = ''40'',
       selectedBaseInfoCode = ''040'',
       dcInput = (\<lambda>u. if u = 2 then Some '' 5 '' else Some '''') \<rparr>"

section \<open>Splitting and joining\<close>

lemma splitOn_nonempty: "splitOn sep s \<noteq> []"
  by (induction s) (auto split: list.splits)

lemma joinWith_Cons: "ps \<noteq> [] \<Longrightarrow> joinWith sep (p # ps) = p @ sep # joinWith sep ps"
  by (cases ps) simp_all

lemma joinWith_splitOn: "joinWith sep (splitOn sep s) = s"
proof (induction s)
  case Nil
  show ?case by simp
next
  case (Cons c cs)
  show ?case
  proof (cases "c = sep")
    case True
    with Cons show ?thesis by (simp add: joinWith_Cons splitOn_nonempty)
  next
    case False
    obtain p ps where sp: "splitOn sep cs = p # ps"
      using splitOn_nonempty [of sep cs] by (cases "splitOn sep cs") auto
    have "joinWith sep ((c # p) # ps) = c # joinWith sep (p # ps)"
      by (cases ps) simp_all
    with Cons False sp show ?thesis by simp
  qed
qed

lemma splitOn_sep_free: "sep \<notin> set p \<Longrightarrow> splitOn sep p = [p]"
  by (induction p) auto

lemma splitOn_append_sep:
  "sep \<notin> set p \<Longrightarrow> splitOn sep (p @ sep # rest) = p # splitOn sep rest"
  by (induction p) auto

lemma splitOn_joinWith:
  "ps \<noteq> [] \<Longrightarrow> \<forall>p \<in> set ps. sep \<notin> set p \<Longrightarrow> splitOn sep (joinWith sep ps) = ps"
proof (induction ps rule: joinWith.induct)
  case (1 sep)
  then show ?case by simp
next
  case (2 sep p)
  then show ?case by (simp add: splitOn_sep_free)
next
  case (3 sep p q ps)
  then show ?case by (simp add: splitOn_append_sep)
qed

lemma splitOn_parts_sep_free: "p \<in> set (splitOn sep s) \<Longrightarrow> sep \<notin> set p"
proof (induction s arbitrary: p)
  case Nil
  then show ?case by simp
next
  case (Cons c cs)
  obtain q qs where sp: "splitOn sep cs = q # qs"
    using splitOn_nonempty [of sep cs] by (cases "splitOn sep cs") auto
  show ?case
  proof (cases "c = sep")
    case True
    with Cons show ?thesis by auto
  next
    case False
    with Cons.prems sp have "p = c # q \<or> p \<in> set qs" by simp
    then show ?thesis
    proof
      assume "p = c # q"
      moreover have "sep \<notin> set q" using Cons.IH [of q] sp by simp
      ultimately show ?thesis using False by simp
    next
      assume "p \<in> set qs"
      then show ?thesis using Cons.IH [of p] sp by simp
    qed
  qed
qed

section \<open>Properties of \<^verbatim>\<open>processDMC\<close>\<close>

lemma sliceInit_butlast: "sliceInit s = butlast s"
  by (simp add: sliceInit_def butlast_conv_take)

lemma sliceInit_sep_free: "sep \<notin> set p \<Longrightarrow> sep \<notin> set (sliceInit p)"
  unfolding sliceInit_def by (meson in_set_takeD)

lemma sliceLast_sep_free: "sep \<notin> set p \<Longrightarrow> sep \<notin> set (sliceLast p)"
  unfolding sliceLast_def by (meson in_set_dropD)

lemma charAtOrEmpty_sep_free: "sep \<notin> set p \<Longrightarrow> sep \<notin> set (charAtOrEmpty p i)"
  by (auto simp: charAtOrEmpty_def)

lemma processDMC_passthrough:
  "length (splitOn CHR ''-'' s) \<noteq> 9 \<Longrightarrow> processDMC s = \<lparr> dmc = s, docType = ''descript'' \<rparr>"
  by (simp add: processDMC_def)

lemma processDMC_nine_dmc:
  assumes "length (splitOn CHR ''-'' s) = 9"
  shows "dmc (processDMC s) = joinWith CHR ''-'' (upgradedParts (splitOn CHR ''-'' s))"
  using assms by (simp add: processDMC_def upgradedParts_def Let_def)

lemma upgradedParts_sep_free:
  assumes "length parts = 9" and "\<forall>p \<in> set parts. sep \<notin> set p"
  shows "\<forall>p \<in> set (upgradedParts parts). sep \<notin> set p"
proof -
  have nth: "sep \<notin> set (parts ! i)" if "i < 9" for i
    using assms that by (metis nth_mem)
  show ?thesis
    unfolding upgradedParts_def
    by (simp add: nth sliceInit_sep_free sliceLast_sep_free charAtOrEmpty_sep_free)
qed

lemma processDMC_nine_split:
  assumes "length (splitOn CHR ''-'' s) = 9"
  shows "splitOn CHR ''-'' (dmc (processDMC s)) = upgradedParts (splitOn CHR ''-'' s)"
proof -
  have free: "\<forall>p \<in> set (splitOn CHR ''-'' s). CHR ''-'' \<notin> set p"
    using splitOn_parts_sep_free by blast
  have "upgradedParts (splitOn CHR ''-'' s) \<noteq> []"
    by (simp add: upgradedParts_def)
  then show ?thesis
    using splitOn_joinWith upgradedParts_sep_free [OF assms free]
    by (simp add: processDMC_nine_dmc [OF assms])
qed

lemma processDMC_nine_gives_twelve:
  "segmentCount s = 9 \<Longrightarrow> segmentCount (dmc (processDMC s)) = 12"
  unfolding segmentCount_def by (simp add: processDMC_nine_split) (simp add: upgradedParts_def)

text \<open>
  C1 (the code against its own comment \<^verbatim>\<open>// Convert 9-part to 11-part DMC\<close>): the legacy code
  \<^verbatim>\<open>MODEL-SDC-SYS-12-00-00-AB1-CD2-E\<close> has nine hyphen-delimited segments, and the code
  \<^verbatim>\<open>processDMC\<close> returns for it has twelve segments, not eleven. (By
  \<open>processDMC_nine_gives_twelve\<close> this is so for every nine-segment code.)
\<close>

theorem processDMC_nine_segments_example:
  "segmentCount ''MODEL-SDC-SYS-12-00-00-AB1-CD2-E'' = 9
   \<and> dmc (processDMC ''MODEL-SDC-SYS-12-00-00-AB1-CD2-E'') = ''MODEL-SDC-SYS-1-2-00-00-AB-1-CD-2-E''
   \<and> segmentCount (dmc (processDMC ''MODEL-SDC-SYS-12-00-00-AB1-CD2-E'')) = 12"
  by (simp add: segmentCount_def processDMC_def charAtOrEmpty_def sliceInit_def sliceLast_def)

text \<open>
  C3: for every code of nine segments, \<^verbatim>\<open>processDMC\<close> gives document type
  \<^verbatim>\<open>'proced'\<close> exactly when segment 8 without its last character is \<^verbatim>\<open>"000"\<close>, and
  \<^verbatim>\<open>'descript'\<close> exactly when it is not.
\<close>

theorem processDMC_docType_iff_infoCode:
  assumes "segmentCount s = 9"
  shows "(docType (processDMC s) = ''proced'' \<longleftrightarrow> butlast (splitOn CHR ''-'' s ! 7) = ''000'')
       \<and> (docType (processDMC s) = ''descript'' \<longleftrightarrow> butlast (splitOn CHR ''-'' s ! 7) \<noteq> ''000'')"
  using assms by (simp add: segmentCount_def processDMC_def Let_def sliceInit_butlast)

theorem processDMC_docType_iff_infoCode_witness:
  "segmentCount ''GSV-H-041-10-0301-00-00A-0001-D'' = 9
   \<and> butlast (splitOn CHR ''-'' ''GSV-H-041-10-0301-00-00A-0001-D'' ! 7) = ''000''
   \<and> docType (processDMC ''GSV-H-041-10-0301-00-00A-0001-D'') = ''proced''
   \<and> segmentCount ''GSV-H-041-10-0301-00-00A-022A-D'' = 9
   \<and> docType (processDMC ''GSV-H-041-10-0301-00-00A-022A-D'') = ''descript''"
  using processDMC_docType_iff_infoCode [of "''GSV-H-041-10-0301-00-00A-0001-D''"]
        processDMC_docType_iff_infoCode [of "''GSV-H-041-10-0301-00-00A-022A-D''"]
  by (simp add: segmentCount_def)

text \<open>
  C6: for every string that does not have exactly nine hyphen-delimited segments,
  \<^verbatim>\<open>processDMC\<close> returns the string unchanged with document type \<^verbatim>\<open>'descript'\<close>.
\<close>

theorem processDMC_not_nine_passthrough:
  assumes "segmentCount s \<noteq> 9"
  shows "processDMC s = \<lparr> dmc = s, docType = ''descript'' \<rparr>"
  using assms by (simp add: segmentCount_def processDMC_passthrough)

theorem processDMC_not_nine_passthrough_witness:
  "segmentCount ''report_final'' \<noteq> 9
   \<and> processDMC ''report_final'' = \<lparr> dmc = ''report_final'', docType = ''descript'' \<rparr>"
  using processDMC_not_nine_passthrough [of "''report_final''"]
  by (simp add: segmentCount_def)

text \<open>
  C5, the spec's example as it is written: \<^verbatim>\<open>MODEL-SDC-SYS-12-00-AB1-CD2-E\<close> has eight
  hyphen-delimited segments, not nine, so \<^verbatim>\<open>processDMC\<close> returns it unchanged; the fourth
  segment of the result is still \<^verbatim>\<open>"12"\<close>, the sixth \<^verbatim>\<open>"AB1"\<close> and the seventh
  \<^verbatim>\<open>"CD2"\<close>.
\<close>

theorem processDMC_spec_example_unchanged:
  "segmentCount ''MODEL-SDC-SYS-12-00-AB1-CD2-E'' = 8
   \<and> processDMC ''MODEL-SDC-SYS-12-00-AB1-CD2-E''
       = \<lparr> dmc = ''MODEL-SDC-SYS-12-00-AB1-CD2-E'', docType = ''descript'' \<rparr>
   \<and> splitOn CHR ''-'' (dmc (processDMC ''MODEL-SDC-SYS-12-00-AB1-CD2-E''))
       = [''MODEL'', ''SDC'', ''SYS'', ''12'', ''00'', ''AB1'', ''CD2'', ''E'']"
  by (simp add: segmentCount_def processDMC_def)

text \<open>
  C5 as amended: the eight-segment string of the spec's example is returned unchanged with
  document type \<^verbatim>\<open>'descript'\<close>; and every code of nine segments whose segment 4 is
  \<^verbatim>\<open>"12"\<close>, segment 7 is \<^verbatim>\<open>"AB1"\<close> and segment 8 is \<^verbatim>\<open>"CD2"\<close> is re-encoded with
  subsystem \<^verbatim>\<open>"1"\<close>, sub-subsystem \<^verbatim>\<open>"2"\<close>, disassembly code \<^verbatim>\<open>"AB"\<close> with variant
  \<^verbatim>\<open>"1"\<close>, info code \<^verbatim>\<open>"CD"\<close> with variant \<^verbatim>\<open>"2"\<close> (segments 4, 5, 8, 9, 10 and 11
  of the result) and document type \<^verbatim>\<open>'descript'\<close>.
\<close>

theorem processDMC_example_fields:
  assumes "segmentCount s = 9"
    and "splitOn CHR ''-'' s ! 3 = ''12''"
    and "splitOn CHR ''-'' s ! 6 = ''AB1''"
    and "splitOn CHR ''-'' s ! 7 = ''CD2''"
  shows "processDMC ''MODEL-SDC-SYS-12-00-AB1-CD2-E''
           = \<lparr> dmc = ''MODEL-SDC-SYS-12-00-AB1-CD2-E'', docType = ''descript'' \<rparr>
       \<and> splitOn CHR ''-'' (dmc (processDMC s)) ! 3 = ''1''
       \<and> splitOn CHR ''-'' (dmc (processDMC s)) ! 4 = ''2''
       \<and> splitOn CHR ''-'' (dmc (processDMC s)) ! 7 = ''AB''
       \<and> splitOn CHR ''-'' (dmc (processDMC s)) ! 8 = ''1''
       \<and> splitOn CHR ''-'' (dmc (processDMC s)) ! 9 = ''CD''
       \<and> splitOn CHR ''-'' (dmc (processDMC s)) ! 10 = ''2''
       \<and> docType (processDMC s) = ''descript''"
proof -
  have nine: "length (splitOn CHR ''-'' s) = 9"
    using assms(1) by (simp add: segmentCount_def)
  have fixed: "processDMC ''MODEL-SDC-SYS-12-00-AB1-CD2-E''
           = \<lparr> dmc = ''MODEL-SDC-SYS-12-00-AB1-CD2-E'', docType = ''descript'' \<rparr>"
    by (simp add: processDMC_def)
  have parts: "splitOn CHR ''-'' (dmc (processDMC s)) = upgradedParts (splitOn CHR ''-'' s)"
    by (rule processDMC_nine_split [OF nine])
  have dt: "docType (processDMC s) = ''descript''"
    using nine assms(4) by (simp add: processDMC_def Let_def sliceInit_def)
  show ?thesis
    unfolding parts using assms(2-4) fixed dt
    by (simp add: upgradedParts_def charAtOrEmpty_def sliceInit_def sliceLast_def)
qed

theorem processDMC_example_fields_witness:
  "segmentCount ''MODEL-SDC-SYS-12-00-00-AB1-CD2-E'' = 9
   \<and> splitOn CHR ''-'' (dmc (processDMC ''MODEL-SDC-SYS-12-00-00-AB1-CD2-E'')) ! 3 = ''1''
   \<and> splitOn CHR ''-'' (dmc (processDMC ''MODEL-SDC-SYS-12-00-00-AB1-CD2-E'')) ! 4 = ''2''
   \<and> splitOn CHR ''-'' (dmc (processDMC ''MODEL-SDC-SYS-12-00-00-AB1-CD2-E'')) ! 7 = ''AB''
   \<and> splitOn CHR ''-'' (dmc (processDMC ''MODEL-SDC-SYS-12-00-00-AB1-CD2-E'')) ! 8 = ''1''
   \<and> splitOn CHR ''-'' (dmc (processDMC ''MODEL-SDC-SYS-12-00-00-AB1-CD2-E'')) ! 9 = ''CD''
   \<and> splitOn CHR ''-'' (dmc (processDMC ''MODEL-SDC-SYS-12-00-00-AB1-CD2-E'')) ! 10 = ''2''
   \<and> docType (processDMC ''MODEL-SDC-SYS-12-00-00-AB1-CD2-E'') = ''descript''"
proof -
  have n: "segmentCount ''MODEL-SDC-SYS-12-00-00-AB1-CD2-E'' = 9"
    by (simp add: segmentCount_def)
  have a: "splitOn CHR ''-'' ''MODEL-SDC-SYS-12-00-00-AB1-CD2-E'' ! 3 = ''12''" by simp
  have b: "splitOn CHR ''-'' ''MODEL-SDC-SYS-12-00-00-AB1-CD2-E'' ! 6 = ''AB1''" by simp
  have c: "splitOn CHR ''-'' ''MODEL-SDC-SYS-12-00-00-AB1-CD2-E'' ! 7 = ''CD2''" by simp
  show ?thesis
    using processDMC_example_fields [OF n a b c] n by blast
qed

lemma processDMC_nine_changes:
  assumes "segmentCount s = 9"
  shows "dmc (processDMC s) \<noteq> s"
proof
  assume "dmc (processDMC s) = s"
  then have "segmentCount (dmc (processDMC s)) = 9" using assms by simp
  moreover have "segmentCount (dmc (processDMC s)) = 12"
    using assms by (rule processDMC_nine_gives_twelve)
  ultimately show False by simp
qed

text \<open>
  C4, the claim as stated, read on \<^verbatim>\<open>processDMC\<close>, the one function that takes a code
  string apart and puts a code together. The string \<^verbatim>\<open>A-B\<close> has two segments, neither
  nine nor eleven, and the code does not fail on it: it is returned as the code. And the
  code returned for the nine-segment code \<^verbatim>\<open>MODEL-SDC-SYS-12-00-00-AB1-CD2-E\<close> is not that
  string.
\<close>

theorem processDMC_no_failure_no_roundtrip:
  "segmentCount ''A-B'' = 2
   \<and> processDMC ''A-B'' = \<lparr> dmc = ''A-B'', docType = ''descript'' \<rparr>
   \<and> segmentCount ''MODEL-SDC-SYS-12-00-00-AB1-CD2-E'' = 9
   \<and> dmc (processDMC ''MODEL-SDC-SYS-12-00-00-AB1-CD2-E'') \<noteq> ''MODEL-SDC-SYS-12-00-00-AB1-CD2-E''"
  by (simp add: segmentCount_def processDMC_def charAtOrEmpty_def sliceInit_def sliceLast_def)

text \<open>
  C4 as amended, on \<^verbatim>\<open>processDMC\<close>. The code it returns is the input string itself
  exactly when the input does not have nine segments: a string with eleven segments, and a
  string with a segment count other than nine and eleven, is accepted and returned
  unchanged with document type \<^verbatim>\<open>'descript'\<close>, and a code of nine segments is re-encoded
  into a different string. No string makes \<^verbatim>\<open>processDMC\<close> fail.
\<close>

theorem processDMC_roundtrip_iff_not_nine:
  "(dmc (processDMC s) = s \<longleftrightarrow> segmentCount s \<noteq> 9)
   \<and> (segmentCount s = 11 \<longrightarrow> processDMC s = \<lparr> dmc = s, docType = ''descript'' \<rparr>)
   \<and> (segmentCount s \<notin> {9, 11} \<longrightarrow> processDMC s = \<lparr> dmc = s, docType = ''descript'' \<rparr>)"
proof -
  have same: "segmentCount s \<noteq> 9 \<Longrightarrow> processDMC s = \<lparr> dmc = s, docType = ''descript'' \<rparr>"
    by (simp add: segmentCount_def processDMC_passthrough)
  have changed: "segmentCount s = 9 \<Longrightarrow> dmc (processDMC s) \<noteq> s"
    by (rule processDMC_nine_changes)
  have iff: "dmc (processDMC s) = s \<longleftrightarrow> segmentCount s \<noteq> 9"
  proof
    assume "dmc (processDMC s) = s"
    then show "segmentCount s \<noteq> 9" using changed by blast
  next
    assume "segmentCount s \<noteq> 9"
    then show "dmc (processDMC s) = s" using same by simp
  qed
  from iff same show ?thesis by simp
qed

theorem processDMC_roundtrip_iff_not_nine_witness:
  "segmentCount ''A-B'' \<notin> {9, 11}
   \<and> processDMC ''A-B'' = \<lparr> dmc = ''A-B'', docType = ''descript'' \<rparr>
   \<and> segmentCount ''GSV-H-041-1-0-0301-00-A-022-A-D'' = 11
   \<and> processDMC ''GSV-H-041-1-0-0301-00-A-022-A-D''
       = \<lparr> dmc = ''GSV-H-041-1-0-0301-00-A-022-A-D'', docType = ''descript'' \<rparr>
   \<and> segmentCount ''GSV-H-041-10-0301-00-00A-022A-D'' = 9
   \<and> dmc (processDMC ''GSV-H-041-10-0301-00-00A-022A-D'') \<noteq> ''GSV-H-041-10-0301-00-00A-022A-D''"
proof -
  have two: "segmentCount ''A-B'' \<notin> {9, 11}"
    by (simp add: segmentCount_def)
  have eleven: "segmentCount ''GSV-H-041-1-0-0301-00-A-022-A-D'' = 11"
    by (simp add: segmentCount_def)
  have nine: "segmentCount ''GSV-H-041-10-0301-00-00A-022A-D'' = 9"
    by (simp add: segmentCount_def)
  show ?thesis
    using processDMC_roundtrip_iff_not_nine [of "''A-B''"] two
          processDMC_roundtrip_iff_not_nine [of "''GSV-H-041-1-0-0301-00-A-022-A-D''"] eleven
          processDMC_roundtrip_iff_not_nine [of "''GSV-H-041-10-0301-00-00A-022A-D''"] nine
    by blast
qed

section \<open>Properties of \<^verbatim>\<open>cleanupAdocContent\<close>\<close>

text \<open>
  A pattern that holds a piece \<open>re\<close> every match of which starts with the text \<open>L\<close>
  matches only in a text that contains \<open>L\<close>.
\<close>

lemma startsWith_includesStr: "startsWith s L \<Longrightarrow> includesStr s L"
  by (cases s) (auto simp: startsWith_def)

lemma includesStr_Cons: "includesStr cs L \<Longrightarrow> includesStr (c # cs) L"
  by simp

lemma includesStr_drop: "includesStr (drop n s) L \<Longrightarrow> includesStr s L"
proof (induction s arbitrary: n)
  case Nil
  then show ?case by simp
next
  case (Cons c cs)
  show ?case
  proof (cases n)
    case 0
    with Cons.prems show ?thesis by simp
  next
    case (Suc m)
    with Cons.prems have "includesStr (drop m cs) L" by simp
    then have "includesStr cs L" by (rule Cons.IH)
    then show ?thesis by simp
  qed
qed

lemma matchItems_infix:
  assumes head: "\<And>prev s st r. matchItems re prev s st = Some r \<Longrightarrow> startsWith s L"
  shows "matchItems full prev s st = Some r \<Longrightarrow> full = pre @ re \<Longrightarrow> includesStr s L"
proof -
  have base: "\<And>full prev s st r. matchItems full prev s st = Some r \<Longrightarrow> full = re \<Longrightarrow> includesStr s L"
    using head startsWith_includesStr by blast
  show "matchItems full prev s st = Some r \<Longrightarrow> full = pre @ re \<Longrightarrow> includesStr s L"
proof (induction full prev s st arbitrary: pre rule: matchItems.induct)
  case (1 prev s st)
  then show ?case using base [OF "1.prems"(1)] by simp
next
  case (2 a re' prev st)
  from "2.prems"(1) show ?case by simp
next
  case (3 a re' prev c cs st)
  show ?case
  proof (cases pre)
    case Nil
    with 3 show ?thesis using base [OF "3.prems"(1)] by simp
  next
    case (Cons i pre')
    then have "re' = pre' @ re" using "3.prems"(2) by simp
    then show ?thesis
      using "3.IH" [of pre'] "3.prems"(1) by (auto split: if_splits)
  qed
next
  case (4 re' prev s st)
  show ?case
  proof (cases pre)
    case Nil
    with 4 show ?thesis using base [OF "4.prems"(1)] by simp
  next
    case (Cons i pre')
    then have "re' = pre' @ re" using "4.prems"(2) by simp
    then show ?thesis
      using "4.IH" [of pre'] "4.prems"(1) by (auto split: if_splits)
  qed
next
  case (5 re' prev s st)
  show ?case
  proof (cases pre)
    case Nil
    with 5 show ?thesis using base [OF "5.prems"(1)] by simp
  next
    case (Cons i pre')
    then have "re' = pre' @ re" using "5.prems"(2) by simp
    then show ?thesis
      using "5.IH" [of pre'] "5.prems"(1) by (auto split: if_splits)
  qed
next
  case (6 re' prev s st)
  show ?case
  proof (cases pre)
    case Nil
    with 6 show ?thesis using base [OF "6.prems"(1)] by simp
  next
    case (Cons i pre')
    then have "re' = pre' @ re" using "6.prems"(2) by simp
    then show ?thesis
      using "6.IH" [of pre'] "6.prems"(1) by (auto split: if_splits)
  qed
next
  case (7 re' prev s st)
  show ?case
  proof (cases pre)
    case Nil
    with 7 show ?thesis using base [OF "7.prems"(1)] by simp
  next
    case (Cons i pre')
    then have "re' = pre' @ re" using "7.prems"(2) by simp
    then show ?thesis
      using "7.IH" [of pre'] "7.prems"(1) by (auto split: if_splits)
  qed
next
  case (8 a n re' prev st)
  show ?case
  proof (cases pre)
    case Nil
    with 8 show ?thesis using base [OF "8.prems"(1)] by simp
  next
    case (Cons i pre')
    then have "re' = pre' @ re" using "8.prems"(2) by simp
    then show ?thesis
      using "8.IH" [of pre'] "8.prems"(1) by (auto split: if_splits)
  qed
next
  case (9 a n re' prev c cs st)
  show ?case
  proof (cases pre)
    case Nil
    with 9 show ?thesis using base [OF "9.prems"(1)] by simp
  next
    case (Cons i pre')
    then have i: "i = Greedy a n" and pre': "re' = pre' @ re" using 9 by auto
    have ih1: "matchItems (Greedy a (n - 1) # re') (Some c) cs (st\<lparr>pos := pos st + 1\<rparr>) = Some r
               \<Longrightarrow> atomMatches a c \<Longrightarrow> includesStr cs L"
      using "9.IH"(1) [of "Greedy a (n - 1) # pre'"] pre' by simp
    have ih2: "matchItems re' prev (c # cs) st = Some r \<Longrightarrow> n = 0 \<Longrightarrow> atomMatches a c
               \<Longrightarrow> matchItems (Greedy a (n - 1) # re') (Some c) cs (st\<lparr>pos := pos st + 1\<rparr>) = None
               \<Longrightarrow> includesStr (c # cs) L"
      using "9.IH"(2) [of pre'] pre' by simp
    have ih3: "matchItems re' prev (c # cs) st = Some r \<Longrightarrow> n = 0 \<Longrightarrow> \<not> atomMatches a c
               \<Longrightarrow> includesStr (c # cs) L"
      using "9.IH"(3) [of pre'] pre' by simp
    from "9.prems"(1) show ?thesis
      using ih1 ih2 ih3 by (auto split: if_splits option.splits)
  qed
next
  case (10 a n re' prev st)
  show ?case
  proof (cases pre)
    case Nil
    with 10 show ?thesis using base [OF "10.prems"(1)] by simp
  next
    case (Cons i pre')
    then have "re' = pre' @ re" using "10.prems"(2) by simp
    then show ?thesis
      using "10.IH" [of pre'] "10.prems"(1) by (auto split: if_splits)
  qed
next
  case (11 a n re' prev c cs st)
  show ?case
  proof (cases pre)
    case Nil
    with 11 show ?thesis using base [OF "11.prems"(1)] by simp
  next
    case (Cons i pre')
    then have i: "i = Lazy a n" and pre': "re' = pre' @ re" using 11 by auto
    have ih1: "matchItems re' prev (c # cs) st = Some r \<Longrightarrow> n = 0 \<Longrightarrow> includesStr (c # cs) L"
      using "11.IH"(1) [of pre'] pre' by simp
    have ih2: "matchItems (Lazy a 0 # re') (Some c) cs (st\<lparr>pos := pos st + 1\<rparr>) = Some r
               \<Longrightarrow> n = 0 \<Longrightarrow> matchItems re' prev (c # cs) st = None \<Longrightarrow> atomMatches a c \<Longrightarrow> includesStr cs L"
      using "11.IH"(2) [of "Lazy a 0 # pre'"] pre' by simp
    have ih3: "matchItems (Lazy a (n - 1) # re') (Some c) cs (st\<lparr>pos := pos st + 1\<rparr>) = Some r
               \<Longrightarrow> n \<noteq> 0 \<Longrightarrow> atomMatches a c \<Longrightarrow> includesStr cs L"
      using "11.IH"(3) [of "Lazy a (n - 1) # pre'"] pre' by simp
    from "11.prems"(1) show ?thesis
      using ih1 ih2 ih3 by (auto split: if_splits option.splits)
  qed
qed
qed


lemma matchItems_Chr_Lit:
  "matchItems (Chr (Lit l) # re) prev s st = Some r \<Longrightarrow> startsWith s [l]"
  by (cases s) (auto simp: startsWith_def split: if_splits)

lemma matchItems_two_Lit:
  "matchItems (Chr (Lit k) # Chr (Lit l) # re) prev s st = Some r \<Longrightarrow> startsWith s [k, l]"
proof (cases s)
  case Nil
  then show "matchItems (Chr (Lit k) # Chr (Lit l) # re) prev s st = Some r \<Longrightarrow> ?thesis" by simp
next
  case (Cons c cs)
  then show "matchItems (Chr (Lit k) # Chr (Lit l) # re) prev s st = Some r \<Longrightarrow> ?thesis"
    by (cases cs) (auto simp: startsWith_def split: if_splits)
qed

lemma matchItems_Greedy_two:
  "matchItems (Greedy (Lit l) (Suc (Suc n)) # re) prev s st = Some r \<Longrightarrow> startsWith s [l, l]"
proof (cases s)
  case Nil
  then show "matchItems (Greedy (Lit l) (Suc (Suc n)) # re) prev s st = Some r \<Longrightarrow> ?thesis" by simp
next
  case (Cons c cs)
  then show "matchItems (Greedy (Lit l) (Suc (Suc n)) # re) prev s st = Some r \<Longrightarrow> ?thesis"
    by (cases cs) (auto simp: startsWith_def split: if_splits option.splits)
qed

lemma matchItems_plusToken:
  assumes "matchItems (Chr (Lit CHR ''{'') # Chr (Lit CHR ''p'') # Chr (Lit CHR ''l'')
             # Chr (Lit CHR ''u'') # Chr (Lit CHR ''s'') # Chr (Lit CHR ''}'') # re) prev s st = Some r"
  shows "startsWith s ''{plus}''"
proof -
  obtain c1 s1 where s: "s = c1 # s1" using assms by (cases s) auto
  obtain c2 s2 where s1: "s1 = c2 # s2" using assms s by (cases s1) (auto split: if_splits)
  obtain c3 s3 where s2: "s2 = c3 # s3" using assms s s1 by (cases s2) (auto split: if_splits)
  obtain c4 s4 where s3: "s3 = c4 # s4" using assms s s1 s2 by (cases s3) (auto split: if_splits)
  obtain c5 s5 where s4: "s4 = c5 # s5" using assms s s1 s2 s3 by (cases s4) (auto split: if_splits)
  obtain c6 s6 where s5: "s5 = c6 # s6" using assms s s1 s2 s3 s4 by (cases s5) (auto split: if_splits)
  show ?thesis
    using assms unfolding s s1 s2 s3 s4 s5 by (auto simp: startsWith_def split: if_splits)
qed

lemma replaceFrom_no_match:
  assumes "\<forall>n prev'. matchItems re prev' (drop n s) \<lparr>pos = 0, groupStart = 0, groupEnd = 0\<rparr> = None"
  shows "replaceFrom re rep prev s = s"
  using assms
proof (induction s arbitrary: prev)
  case Nil
  have "matchItems re prev (drop 0 []) \<lparr>pos = 0, groupStart = 0, groupEnd = 0\<rparr> = None"
    using Nil.prems by blast
  then show ?case by simp
next
  case (Cons c cs)
  have "matchItems re prev (drop 0 (c # cs)) \<lparr>pos = 0, groupStart = 0, groupEnd = 0\<rparr> = None"
    using Cons.prems by blast
  then have here: "matchItems re prev (c # cs) \<lparr>pos = 0, groupStart = 0, groupEnd = 0\<rparr> = None"
    by simp
  have "\<forall>n prev'. matchItems re prev' (drop n cs) \<lparr>pos = 0, groupStart = 0, groupEnd = 0\<rparr> = None"
  proof (intro allI)
    fix n prev'
    have "matchItems re prev' (drop (Suc n) (c # cs)) \<lparr>pos = 0, groupStart = 0, groupEnd = 0\<rparr> = None"
      using Cons.prems by blast
    then show "matchItems re prev' (drop n cs) \<lparr>pos = 0, groupStart = 0, groupEnd = 0\<rparr> = None"
      by simp
  qed
  then have rest: "replaceFrom re rep (Some c) cs = cs"
    by (rule Cons.IH)
  from here rest show ?case by simp
qed

lemma replaceAll_absent:
  assumes head: "\<And>prev s st r. matchItems re' prev s st = Some r \<Longrightarrow> startsWith s L"
    and re: "re = pre @ re'"
    and absent: "\<not> includesStr s L"
  shows "replaceAll re rep s = s"
  unfolding replaceAll_def
proof (rule replaceFrom_no_match, intro allI)
  fix n prev'
  show "matchItems re prev' (drop n s) \<lparr>pos = 0, groupStart = 0, groupEnd = 0\<rparr> = None"
  proof (rule ccontr)
    assume "matchItems re prev' (drop n s) \<lparr>pos = 0, groupStart = 0, groupEnd = 0\<rparr> \<noteq> None"
    then obtain r where m: "matchItems re prev' (drop n s) \<lparr>pos = 0, groupStart = 0, groupEnd = 0\<rparr> = Some r"
      by auto
    have "includesStr (drop n s) L"
    proof (rule matchItems_infix [where re = re' and pre = pre])
      show "\<And>prev s st r. matchItems re' prev s st = Some r \<Longrightarrow> startsWith s L"
        by (rule head)
      show "matchItems re prev' (drop n s) \<lparr>pos = 0, groupStart = 0, groupEnd = 0\<rparr> = Some r"
        by (rule m)
      show "re = pre @ re'" by (rule re)
    qed
    then have "includesStr s L" by (rule includesStr_drop)
    with absent show False by contradiction
  qed
qed

lemma trailingPlus_absent: "\<not> includesStr s ''+'' \<Longrightarrow> replaceAll trailingPlus rep s = s"
proof (rule replaceAll_absent [where L = "''+''"
        and pre = "[GroupOpen, Lazy Dot 1, GroupClose, Greedy Space 0]"
        and re' = "[Chr (Lit CHR ''+''), Greedy Space 0, Eol]"])
  show "trailingPlus = [GroupOpen, Lazy Dot 1, GroupClose, Greedy Space 0] @ [Chr (Lit CHR ''+''), Greedy Space 0, Eol]"
    by (simp add: trailingPlus_def)
qed (auto dest: matchItems_Chr_Lit)

lemma standalonePlus_absent: "\<not> includesStr s ''{plus}'' \<Longrightarrow> replaceAll standalonePlus rep s = s"
proof (rule replaceAll_absent [where L = "''{plus}''"
        and pre = "[Bol, Greedy Space 0]"
        and re' = "[Chr (Lit CHR ''{''), Chr (Lit CHR ''p''), Chr (Lit CHR ''l''),
                    Chr (Lit CHR ''u''), Chr (Lit CHR ''s''), Chr (Lit CHR ''}''), Greedy Space 0, Eol]"])
  show "standalonePlus = [Bol, Greedy Space 0] @ [Chr (Lit CHR ''{''), Chr (Lit CHR ''p''), Chr (Lit CHR ''l''),
                    Chr (Lit CHR ''u''), Chr (Lit CHR ''s''), Chr (Lit CHR ''}''), Greedy Space 0, Eol]"
    by (simp add: standalonePlus_def)
qed (auto dest: matchItems_plusToken)

lemma afterOpening_absent: "\<not> includesStr s ''--'' \<Longrightarrow> replaceAll afterOpening rep s = s"
proof (rule replaceAll_absent [where L = "''--''"
        and pre = "[GroupOpen]"
        and re' = "[Chr (Lit CHR ''-''), Chr (Lit CHR ''-''), Chr (Lit CHR 0x0A), GroupClose, Greedy Space 1]"])
  show "afterOpening = [GroupOpen] @ [Chr (Lit CHR ''-''), Chr (Lit CHR ''-''), Chr (Lit CHR 0x0A), GroupClose, Greedy Space 1]"
    by (simp add: afterOpening_def)
qed (auto dest: matchItems_two_Lit)

lemma beforeClosing_absent: "\<not> includesStr s ''--'' \<Longrightarrow> replaceAll beforeClosing rep s = s"
proof (rule replaceAll_absent [where L = "''--''"
        and pre = "[Greedy Space 1, GroupOpen, Chr (Lit CHR 0x0A)]"
        and re' = "[Chr (Lit CHR ''-''), Chr (Lit CHR ''-''), GroupClose]"])
  show "beforeClosing = [Greedy Space 1, GroupOpen, Chr (Lit CHR 0x0A)] @ [Chr (Lit CHR ''-''), Chr (Lit CHR ''-''), GroupClose]"
    by (simp add: beforeClosing_def)
qed (auto dest: matchItems_two_Lit)

lemma thematicBreak_absent: "\<not> includesStr s ''--'' \<Longrightarrow> replaceAll thematicBreak rep s = s"
proof (rule replaceAll_absent [where L = "''--''"
        and pre = "[Greedy Space 0, Bol, Greedy Space 0]"
        and re' = "[Greedy (Lit CHR ''-'') 3, Greedy Space 0, Eol, Greedy Space 0]"])
  show "thematicBreak = [Greedy Space 0, Bol, Greedy Space 0] @ [Greedy (Lit CHR ''-'') 3, Greedy Space 0, Eol, Greedy Space 0]"
    by (simp add: thematicBreak_def)
  show "\<And>prev s st r. matchItems [Greedy (Lit CHR ''-'') 3, Greedy Space 0, Eol, Greedy Space 0] prev s st = Some r
        \<Longrightarrow> startsWith s ''--''"
    using matchItems_Greedy_two [where n = 1] by (simp add: numeral_3_eq_3)
qed auto

text \<open>
  C2, the claim as stated: cleaning up is not idempotent. From \<^verbatim>\<open>a++\<close> the first pass
  removes one \<^verbatim>\<open>+\<close> and the second pass the other; from a line \<^verbatim>\<open>a\<close> followed by
  a line \<^verbatim>\<open>{plus}\<close> the first pass makes the lines \<^verbatim>\<open>a\<close> and \<^verbatim>\<open>+\<close>, which the
  second pass reads as a trailing \<^verbatim>\<open>+\<close> and reduces to \<^verbatim>\<open>a\<close>. Nor is it idempotent
  on texts without \<^verbatim>\<open>+\<close>: of two lines of hyphens, the second one indented, the first
  pass turns the first line into a thematic break and the second pass the second.
\<close>

theorem cleanup_not_idempotent:
  "cleanupAdocContent ''a++'' = ''a+''
   \<and> cleanupAdocContent (cleanupAdocContent ''a++'') = ''a''
   \<and> cleanupAdocContent ''a\<newline>{plus}'' = ''a\<newline>+''
   \<and> cleanupAdocContent (cleanupAdocContent ''a\<newline>{plus}'') = ''a''
   \<and> cleanupAdocContent ''--- \<newline> ---'' = ''\<newline>\<newline>---\<newline>\<newline>---''
   \<and> cleanupAdocContent (cleanupAdocContent ''--- \<newline> ---'')
       = ''\<newline>\<newline>---\<newline>\<newline>\<newline>\<newline>---\<newline>\<newline>''"
  by code_simp

text \<open>
  C2 as amended: a text that contains no \<^verbatim>\<open>+\<close>, no \<^verbatim>\<open>{plus}\<close> and no \<^verbatim>\<open>--\<close> is
  returned unchanged by \<^verbatim>\<open>cleanupAdocContent\<close>, so cleaning it up twice gives what
  cleaning it up once gives.
\<close>

theorem cleanup_identity_without_markers:
  assumes "\<not> includesStr x ''+''" and "\<not> includesStr x ''{plus}''" and "\<not> includesStr x ''--''"
  shows "cleanupAdocContent x = x \<and> cleanupAdocContent (cleanupAdocContent x) = cleanupAdocContent x"
proof -
  have "cleanupAdocContent x = x"
    using assms
    by (simp add: cleanupAdocContent_def trailingPlus_absent standalonePlus_absent
                  afterOpening_absent beforeClosing_absent thematicBreak_absent)
  then show ?thesis by simp
qed

theorem cleanup_identity_without_markers_witness:
  "\<not> includesStr ''Step-by-Step {name}'' ''+''
   \<and> \<not> includesStr ''Step-by-Step {name}'' ''{plus}''
   \<and> \<not> includesStr ''Step-by-Step {name}'' ''--''
   \<and> cleanupAdocContent ''Step-by-Step {name}'' = ''Step-by-Step {name}''
   \<and> cleanupAdocContent (cleanupAdocContent ''Step-by-Step {name}'') = cleanupAdocContent ''Step-by-Step {name}''"
proof -
  have a: "\<not> includesStr ''Step-by-Step {name}'' ''+''" by (simp add: startsWith_def)
  have b: "\<not> includesStr ''Step-by-Step {name}'' ''{plus}''" by (simp add: startsWith_def)
  have c: "\<not> includesStr ''Step-by-Step {name}'' ''--''" by (simp add: startsWith_def)
  show ?thesis
    using cleanup_identity_without_markers [OF a b c] a b c by blast
qed

section \<open>Properties of the document assembler\<close>

text \<open>
  C8: the assembled text is the header followed by the cleaned-up body for the document
  type \<^verbatim>\<open>'descript'\<close> (also when no document type is given), and the header, the
  cleaned-up body and the footer for \<^verbatim>\<open>'proced'\<close>. The clean-up is applied to the
  body alone, before it is put after the header; the footer is the fixed "Closeout
  Requirements" section and stands only in the procedural text.
\<close>

theorem finalContent_header_body_footer:
  "finalContent content filename (Some ''descript'')
     = createS1000DHeader (dmc (processDMC (replaceFirst ''DMC-'' '''' filename))) ''descript''
       @ cleanupAdocContent content
   \<and> finalContent content filename None
     = createS1000DHeader (dmc (processDMC (replaceFirst ''DMC-'' '''' filename))) ''descript''
       @ cleanupAdocContent content
   \<and> finalContent content filename (Some ''proced'')
     = createS1000DHeader (dmc (processDMC (replaceFirst ''DMC-'' '''' filename))) ''proced''
       @ cleanupAdocContent content
       @ createProceduralFooter
   \<and> createProceduralFooter
     = ''\<newline>\<newline>[[closeout_reqs]]\<newline>== Closeout Requirements\<newline>\<newline>''
       @ ''[[closeout_conds_after]]\<newline>=== Required Conditions After Job Completion\<newline>\<newline>''"
  by (simp add: finalContent_def createProceduralFooter_def templateLines_def)

text \<open>
  C10: for every document type other than \<^verbatim>\<open>'proced'\<close> the assembled text is the
  descriptive header (the line \<^verbatim>\<open>:dmc: DMC-\<close> with the code, then the fixed descriptive
  lines, none of which is a "Preliminary Requirements" or "Main Procedure" anchor or title)
  followed by the cleaned-up body and nothing else; the document type \<^verbatim>\<open>'proced'\<close>
  gives the procedural header, which has these anchors, and the footer.
\<close>

theorem finalContent_other_docTypes_descriptive:
  assumes "docTypeName \<noteq> ''proced''"
  shows "finalContent content filename (Some docTypeName)
           = templateLines (('':dmc: DMC-'' @ dmc (processDMC (replaceFirst ''DMC-'' '''' filename)))
                            # descriptHeaderRest)
             @ cleanupAdocContent content
       \<and> ''[[prelim_reqs]]'' \<notin> set descriptHeaderRest
       \<and> ''== Preliminary Requirements'' \<notin> set descriptHeaderRest
       \<and> ''[[main_proc_steps]]'' \<notin> set descriptHeaderRest
       \<and> ''== Main Procedure'' \<notin> set descriptHeaderRest
       \<and> finalContent content filename (Some ''proced'')
           = templateLines (''= My Procedural Data Module''
                            # ('':dmc: DMC-'' @ dmc (processDMC (replaceFirst ''DMC-'' '''' filename)))
                            # procedHeaderRest)
             @ cleanupAdocContent content
             @ createProceduralFooter
       \<and> ''[[prelim_reqs]]'' \<in> set procedHeaderRest
       \<and> ''== Preliminary Requirements'' \<in> set procedHeaderRest
       \<and> ''[[main_proc_steps]]'' \<in> set procedHeaderRest
       \<and> ''== Main Procedure'' \<in> set procedHeaderRest"
proof -
  have other: "finalContent content filename (Some docTypeName)
           = templateLines (('':dmc: DMC-'' @ dmc (processDMC (replaceFirst ''DMC-'' '''' filename)))
                            # descriptHeaderRest)
             @ cleanupAdocContent content"
    using assms by (simp add: finalContent_def createS1000DHeader_def)
  have proced: "finalContent content filename (Some ''proced'')
           = templateLines (''= My Procedural Data Module''
                            # ('':dmc: DMC-'' @ dmc (processDMC (replaceFirst ''DMC-'' '''' filename)))
                            # procedHeaderRest)
             @ cleanupAdocContent content
             @ createProceduralFooter"
    by (simp add: finalContent_def createS1000DHeader_def)
  have absent: "''[[prelim_reqs]]'' \<notin> set descriptHeaderRest"
      "''== Preliminary Requirements'' \<notin> set descriptHeaderRest"
      "''[[main_proc_steps]]'' \<notin> set descriptHeaderRest"
      "''== Main Procedure'' \<notin> set descriptHeaderRest"
    by (simp_all add: descriptHeaderRest_def)
  have present: "''[[prelim_reqs]]'' \<in> set procedHeaderRest"
      "''== Preliminary Requirements'' \<in> set procedHeaderRest"
      "''[[main_proc_steps]]'' \<in> set procedHeaderRest"
      "''== Main Procedure'' \<in> set procedHeaderRest"
    by (simp_all add: procedHeaderRest_def)
  from other proced absent present show ?thesis by blast
qed

theorem finalContent_other_docTypes_descriptive_witness:
  "''fault'' \<noteq> ''proced'' \<and> ''ipd'' \<noteq> ''proced''
   \<and> finalContent ''Text'' ''DMC-GSV-H-041'' (Some ''fault'')
       = templateLines ('':dmc: DMC-GSV-H-041'' # descriptHeaderRest) @ ''Text''
   \<and> finalContent ''Text'' ''DMC-GSV-H-041'' (Some ''ipd'')
       = templateLines ('':dmc: DMC-GSV-H-041'' # descriptHeaderRest) @ ''Text''"
proof -
  have f: "''fault'' \<noteq> ''proced''" and i: "''ipd'' \<noteq> ''proced''" by simp_all
  have body: "cleanupAdocContent ''Text'' = ''Text''"
    by code_simp
  show ?thesis
    using finalContent_other_docTypes_descriptive [OF f, of "''Text''" "''DMC-GSV-H-041''"]
          finalContent_other_docTypes_descriptive [OF i, of "''Text''" "''DMC-GSV-H-041''"]
    by (simp add: startsWith_def processDMC_def body)
qed

section \<open>Properties of \<^verbatim>\<open>filterSystemData\<close>\<close>

lemma startsWith_iff: "startsWith s pat \<longleftrightarrow> (\<exists>post. s = pat @ post)"
proof
  assume "startsWith s pat"
  then have "s = pat @ drop (length pat) s"
    unfolding startsWith_def by (metis append_take_drop_id)
  then show "\<exists>post. s = pat @ post" ..
next
  assume "\<exists>post. s = pat @ post"
  then show "startsWith s pat" by (auto simp: startsWith_def)
qed

lemma includesStr_iff: "includesStr s pat \<longleftrightarrow> (\<exists>pre post. s = pre @ pat @ post)"
proof (induction s)
  case Nil
  show ?case by auto
next
  case (Cons c cs)
  show ?case
  proof
    assume "includesStr (c # cs) pat"
    then consider "startsWith (c # cs) pat" | "includesStr cs pat" by auto
    then show "\<exists>pre post. c # cs = pre @ pat @ post"
    proof cases
      case 1
      then obtain post where "c # cs = pat @ post" using startsWith_iff by blast
      then have "c # cs = [] @ pat @ post" by simp
      then show ?thesis by blast
    next
      case 2
      then obtain pre post where "cs = pre @ pat @ post" using Cons.IH by blast
      then have "c # cs = (c # pre) @ pat @ post" by simp
      then show ?thesis by blast
    qed
  next
    assume "\<exists>pre post. c # cs = pre @ pat @ post"
    then obtain pre post where eq: "c # cs = pre @ pat @ post" by blast
    show "includesStr (c # cs) pat"
    proof (cases pre)
      case Nil
      with eq have "startsWith (c # cs) pat" using startsWith_iff by auto
      then show ?thesis by simp
    next
      case (Cons p pre')
      with eq have "cs = pre' @ pat @ post" by simp
      then have "includesStr cs pat" using Cons.IH by blast
      then show ?thesis by simp
    qed
  qed
qed

lemma filterNodes_map_filter: "filterNodes q ns = List.map_filter (filterNode q) ns"
  by (induction ns) (auto simp: map_filter_simps split: option.splits)

lemma retained_iff:
  "(filterNode q n \<noteq> None) = (selfMatch q n \<or> (\<exists>d \<in> set (descendants n). selfMatch q d))"
  "(filterNodes q ns \<noteq> []) = (\<exists>n \<in> set ns. selfMatch q n \<or> (\<exists>d \<in> set (descendants n). selfMatch q d))"
proof (induction q n and q ns rule: filterNode_filterNodes.induct)
  case (1 query lv cd ti df ch sc ssc lb fc)
  then show ?case by (auto simp: selfMatch_def Let_def)
next
  case (2 query)
  then show ?case by simp
next
  case (3 query n ns)
  then show ?case by (auto split: option.splits)
qed

lemma filterNode_selfMatch: "selfMatch q n \<Longrightarrow> filterNode q n = Some n"
  by (cases n) (simp add: selfMatch_def)

lemma filterNode_no_selfMatch:
  "\<not> selfMatch q n \<Longrightarrow> filterNode q n =
     (if filterNodes q (children n) \<noteq> [] then Some (withChildren n (filterNodes q (children n))) else None)"
  by (cases n) (simp add: selfMatch_def withChildren_def Let_def)

lemma example_labels:
  "label wheelSystem = ''10 - Wheel''" "children wheelSystem = []"
  "label brakesGroup = ''B - Brakes''" "children brakesGroup = [wheelSystem]"
  "label brakeAssembly = ''32-40 - Brake Assembly''"
  "label gearGroup = ''A - Airframe''"
  by (simp_all add: wheelSystem_def brakesGroup_def brakeAssembly_def gearGroup_def createNode_def)

lemma toLowerCase_examples:
  "toLowerCase '' Brake'' = '' brake''"
  "toLowerCase ''brake'' = ''brake''"
  "toLowerCase ''10 - Wheel'' = ''10 - wheel''"
  "toLowerCase ''B - Brakes'' = ''b - brakes''"
  "toLowerCase ''32-40 - Brake Assembly'' = ''32-40 - brake assembly''"
  "toLowerCase ''32-50 - Steering'' = ''32-50 - steering''"
  "toLowerCase ''32 - Landing Gear'' = ''32 - landing gear''"
  "toLowerCase ''21 - Air Conditioning'' = ''21 - air conditioning''"
  "toLowerCase ''A - Airframe'' = ''a - airframe''"
  by code_simp+

text \<open>
  C9, the claim as stated: the group "B - Brakes" matches the query "brake", so it is
  returned with all its children; its child "10 - Wheel" is in the result although its
  label does not match and it has no descendant.
\<close>

theorem filterSystemData_keeps_children_of_match:
  "filterSystemData ''brake'' [brakesGroup] = [brakesGroup]
   \<and> children brakesGroup = [wheelSystem]
   \<and> \<not> selfMatch ''brake'' wheelSystem
   \<and> descendants wheelSystem = []"
  by (simp add: filterSystemData_def trim_def isWhiteSpace_def toLowerCase_examples
        brakesGroup_def wheelSystem_def createNode_def selfMatch_def startsWith_def)

text \<open>
  C9 as amended. The query is trimmed and put in lower case, and an empty query returns the
  hierarchy as it is. A node's label matches when its lower-case form contains the query. A
  node the filter visits (a root, or a child of a kept node that does not match) is kept
  exactly when its own label matches or the label of one of its descendants does. A matching
  node is kept as it is, with all its children, matching or not; a kept node that does not
  match is copied with the filtered list of its children, which holds, in order, the
  children that are kept.
\<close>

theorem filterNode_retention:
  "filterSystemData query tree
     = (if toLowerCase (trim query) = [] then tree
        else filterNodes (toLowerCase (trim query)) tree)
   \<and> (selfMatch q n \<longleftrightarrow> (\<exists>pre post. toLowerCase (label n) = pre @ q @ post))
   \<and> (filterNode q n \<noteq> None
        \<longleftrightarrow> selfMatch q n \<or> (\<exists>d \<in> set (descendants n). selfMatch q d))
   \<and> (selfMatch q n \<longrightarrow> filterNode q n = Some n)
   \<and> (\<not> selfMatch q n \<and> filterNode q n \<noteq> None
        \<longrightarrow> filterNode q n = Some (withChildren n (filterNodes q (children n))))
   \<and> filterNodes q ns = List.map_filter (filterNode q) ns"
proof -
  have top: "filterSystemData query tree
     = (if toLowerCase (trim query) = [] then tree
        else filterNodes (toLowerCase (trim query)) tree)"
    by (simp add: filterSystemData_def Let_def)
  have sub: "selfMatch q n \<longleftrightarrow> (\<exists>pre post. toLowerCase (label n) = pre @ q @ post)"
    unfolding selfMatch_def by (rule includesStr_iff)
  have kept: "filterNode q n \<noteq> None
        \<longleftrightarrow> selfMatch q n \<or> (\<exists>d \<in> set (descendants n). selfMatch q d)"
    by (rule retained_iff(1))
  have whole: "selfMatch q n \<longrightarrow> filterNode q n = Some n"
    by (simp add: filterNode_selfMatch)
  have pruned: "\<not> selfMatch q n \<and> filterNode q n \<noteq> None
        \<longrightarrow> filterNode q n = Some (withChildren n (filterNodes q (children n)))"
  proof (intro impI)
    assume a: "\<not> selfMatch q n \<and> filterNode q n \<noteq> None"
    then have eq: "filterNode q n =
       (if filterNodes q (children n) \<noteq> []
        then Some (withChildren n (filterNodes q (children n))) else None)"
      using filterNode_no_selfMatch by blast
    with a have "filterNodes q (children n) \<noteq> []"
      by (cases "filterNodes q (children n) = []") simp_all
    with eq show "filterNode q n = Some (withChildren n (filterNodes q (children n)))"
      by simp
  qed
  have order: "filterNodes q ns = List.map_filter (filterNode q) ns"
    by (rule filterNodes_map_filter)
  from top sub kept whole pruned order show ?thesis by blast
qed

theorem filterNode_retention_witness:
  "selfMatch ''brake'' brakeAssembly
   \<and> brakeAssembly \<in> set (descendants gearGroup)
   \<and> \<not> selfMatch ''brake'' gearGroup
   \<and> filterNode ''brake'' gearGroup
       = Some (withChildren gearGroup (filterNodes ''brake'' (children gearGroup)))
   \<and> filterSystemData '' Brake'' [gearGroup]
       = [createNode ''group'' ''A'' ''Airframe'' '''' (Some ''A'') None
            [createNode ''system'' ''32'' ''Landing Gear'' '''' (Some ''32'') None
               [brakeAssembly]]]
   \<and> selfMatch ''brake'' brakesGroup
   \<and> filterNode ''brake'' brakesGroup = Some brakesGroup"
proof -
  have m: "selfMatch ''brake'' brakeAssembly"
    by (simp add: selfMatch_def example_labels toLowerCase_examples startsWith_def)
  have d: "brakeAssembly \<in> set (descendants gearGroup)"
    by (simp add: gearGroup_def createNode_def)
  have g: "\<not> selfMatch ''brake'' gearGroup"
    by (simp add: selfMatch_def example_labels toLowerCase_examples startsWith_def)
  have b: "selfMatch ''brake'' brakesGroup"
    by (simp add: selfMatch_def example_labels toLowerCase_examples startsWith_def)
  have q: "toLowerCase (trim '' Brake'') = ''brake''"
    by code_simp
  have kept: "filterNode ''brake'' gearGroup \<noteq> None"
    using filterNode_retention [of _ _ "''brake''" gearGroup] m d by blast
  have copy: "filterNode ''brake'' gearGroup
       = Some (withChildren gearGroup (filterNodes ''brake'' (children gearGroup)))"
    using filterNode_retention [of _ _ "''brake''" gearGroup] g kept by blast
  have whole: "filterNode ''brake'' brakesGroup = Some brakesGroup"
    using filterNode_retention [of _ _ "''brake''" brakesGroup] b by blast
  have top0: "filterSystemData '' Brake'' [gearGroup]
       = (if toLowerCase (trim '' Brake'') = [] then [gearGroup]
          else filterNodes (toLowerCase (trim '' Brake'')) [gearGroup])"
    using filterNode_retention [of "'' Brake''" "[gearGroup]" "''brake''" gearGroup "[]"]
    by (rule conjunct1)
  have top: "filterSystemData '' Brake'' [gearGroup] = filterNodes ''brake'' [gearGroup]"
    unfolding top0 q by simp
  have result: "filterNodes ''brake'' [gearGroup]
       = [createNode ''group'' ''A'' ''Airframe'' '''' (Some ''A'') None
            [createNode ''system'' ''32'' ''Landing Gear'' '''' (Some ''32'') None
               [brakeAssembly]]]"
    by (simp add: gearGroup_def brakeAssembly_def createNode_def toLowerCase_examples startsWith_def)
  from m d g copy top result b whole show ?thesis by simp
qed

section \<open>Properties of \<^verbatim>\<open>updateResult\<close>\<close>

lemma numberToString_small: "n < 10 \<Longrightarrow> numberToString n = [digitChar n]"
  by simp

lemma numberToString_two: "10 \<le> n \<Longrightarrow> n \<le> 99 \<Longrightarrow> numberToString n = [digitChar (n div 10), digitChar (n mod 10)]"
proof -
  assume a: "10 \<le> n" and b: "n \<le> 99"
  then have "n div 10 < 10" by simp
  then have "numberToString (n div 10) = [digitChar (n div 10)]" by simp
  moreover have "numberToString n = numberToString (n div 10) @ [digitChar (n mod 10)]"
    using a by (subst numberToString.simps) simp
  ultimately show ?thesis by simp
qed

lemma unitCode_two_digits:
  assumes "i \<le> 99"
  shows "padStart (numberToString i) 2 CHR ''0'' = [digitChar (i div 10), digitChar (i mod 10)]"
proof (cases "i < 10")
  case True
  then have "numberToString i = [digitChar i]" by simp
  moreover have "digitChar 0 = CHR ''0''" by code_simp
  ultimately show ?thesis using True by (simp add: padStart_def)
next
  case False
  then show ?thesis using assms numberToString_two [of i] by (simp add: padStart_def)
qed

lemma numberToString_length: "100 \<le> n \<Longrightarrow> 3 \<le> length (numberToString n)"
proof -
  assume a: "100 \<le> n"
  have l: "\<And>m. 0 < length (numberToString m)" 
    by (subst numberToString.simps) simp
  have "numberToString n = numberToString (n div 10) @ [digitChar (n mod 10)]"
    using a by (subst numberToString.simps) simp
  moreover have "numberToString (n div 10) = numberToString (n div 10 div 10) @ [digitChar (n div 10 mod 10)]"
    using a by (subst numberToString.simps) simp
  ultimately show ?thesis using l [of "n div 10 div 10"] by simp
qed

lemma dcCodeOf_default:
  "dcInput f u = None \<or> (\<exists>v. dcInput f u = Some v \<and> trim v = []) \<Longrightarrow> dcCodeOf f u = ''00''"
  by (auto simp: dcCodeOf_def padStart_def numeral_2_eq_2)

lemma parseInt_empty: "parseInt [] = None"
  by code_simp

lemma updateResult_rejected:
  "trim (modelInput f) = [] \<or> trim (sdcInput f) = [] \<or> selectedSystemCode f = []
     \<or> 1 < length (trim (dmvInput f)) \<Longrightarrow> updateResult f = []"
  by (auto simp: updateResult_def Let_def)

lemma updateResult_no_units:
  assumes "trim (modelInput f) \<noteq> []" "trim (sdcInput f) \<noteq> []" "selectedSystemCode f \<noteq> []"
    "length (trim (dmvInput f)) \<le> 1" "unitCountOf f \<le> 0"
  shows "updateResult f = [fullCodeOf f ''00'' (dcCodeOf f 0)]"
  using assms by (simp add: updateResult_def Let_def)

lemma updateResult_units:
  assumes "trim (modelInput f) \<noteq> []" "trim (sdcInput f) \<noteq> []" "selectedSystemCode f \<noteq> []"
    "length (trim (dmvInput f)) \<le> 1" "0 < unitCountOf f"
  shows "updateResult f
         = map (\<lambda>i. fullCodeOf f (padStart (numberToString i) 2 CHR ''0'') (dcCodeOf f i))
               [1 ..< Suc (nat (unitCountOf f))]"
  using assms by (simp add: updateResult_def Let_def)

lemma updateResult_nth:
  assumes "trim (modelInput f) \<noteq> []" "trim (sdcInput f) \<noteq> []" "selectedSystemCode f \<noteq> []"
    "length (trim (dmvInput f)) \<le> 1" "0 < unitCountOf f" "1 \<le> i" "i \<le> nat (unitCountOf f)"
  shows "updateResult f ! (i - 1) = fullCodeOf f (padStart (numberToString i) 2 CHR ''0'') (dcCodeOf f i)"
proof -
  have "i - 1 < length [1 ..< Suc (nat (unitCountOf f))]" using assms(6,7) by (simp del: upt_Suc)
  then have "map (\<lambda>i. fullCodeOf f (padStart (numberToString i) 2 CHR ''0'') (dcCodeOf f i))
               [1 ..< Suc (nat (unitCountOf f))] ! (i - 1)
        = fullCodeOf f (padStart (numberToString ([1 ..< Suc (nat (unitCountOf f))] ! (i - 1))) 2 CHR ''0'')
            (dcCodeOf f ([1 ..< Suc (nat (unitCountOf f))] ! (i - 1)))"
    by (rule nth_map)
  moreover have "[1 ..< Suc (nat (unitCountOf f))] ! (i - 1) = i"
    using assms(6,7) by (simp del: upt_Suc add: nth_upt)
  ultimately show ?thesis
    using updateResult_units [OF assms(1-5)] by (simp del: upt_Suc)
qed


lemma exampleForm_accepted:
  "trim (modelInput (exampleForm ''GSV'' u)) \<noteq> []"
  "trim (sdcInput (exampleForm ''GSV'' u)) \<noteq> []"
  "selectedSystemCode (exampleForm ''GSV'' u) \<noteq> []"
  "length (trim (dmvInput (exampleForm ''GSV'' u))) \<le> 1"
  by (simp_all add: exampleForm_def trim_def isWhiteSpace_def)

lemma exampleForm_unitCount:
  "unitCountOf (exampleForm m '''') = 0"
  "unitCountOf (exampleForm m ''3'') = 3"
  "unitCountOf (exampleForm m ''100'') = 100"
  unfolding unitCountOf_def exampleForm_def by (simp, code_simp)+

text \<open>
  C7, the claim as stated. With the unit count left empty and no model entered,
  \<^verbatim>\<open>updateResult\<close> produces no code at all, not one. With the unit count 100, the
  hundredth code has the unit segment \<^verbatim>\<open>100\<close>, which has three digits.
\<close>

theorem updateResult_counterexamples:
  "unitCountOf (exampleForm '''' '''') = 0
   \<and> updateResult (exampleForm '''' '''') = []
   \<and> unitCountOf (exampleForm ''GSV'' ''100'') = 100
   \<and> updateResult (exampleForm ''GSV'' ''100'') ! 99 = ''GSV-A-32-40-100-00-000-D''"
proof -
  have none: "updateResult (exampleForm '''' '''') = []"
    by (rule updateResult_rejected) (simp add: exampleForm_def trim_def)
  have "updateResult (exampleForm ''GSV'' ''100'') ! (100 - 1)
        = fullCodeOf (exampleForm ''GSV'' ''100'') (padStart (numberToString 100) 2 CHR ''0'')
            (dcCodeOf (exampleForm ''GSV'' ''100'') 100)"
    by (rule updateResult_nth [OF exampleForm_accepted]) (simp_all add: exampleForm_unitCount)
  moreover have "fullCodeOf (exampleForm ''GSV'' ''100'') (padStart (numberToString 100) 2 CHR ''0'')
            (dcCodeOf (exampleForm ''GSV'' ''100'') 100) = ''GSV-A-32-40-100-00-000-D''"
    by code_simp
  ultimately have last: "updateResult (exampleForm ''GSV'' ''100'') ! 99 = ''GSV-A-32-40-100-00-000-D''"
    by simp
  from none last exampleForm_unitCount show ?thesis by simp
qed

lemma padStart_two:
  "padStart v 2 CHR ''0''
     = (if v = [] then ''00'' else if length v = 1 then CHR ''0'' # v else v)"
proof (cases v)
  case Nil
  then show ?thesis by (simp add: padStart_def numeral_2_eq_2)
next
  case (Cons c cs)
  then show ?thesis by (cases cs) (simp_all add: padStart_def numeral_2_eq_2)
qed

lemma dcCodeOf_entered: "dcInput f u = Some v \<Longrightarrow> dcCodeOf f u = padStart (trim v) 2 CHR ''0''"
  by (simp add: dcCodeOf_def)

lemma enteredForm_values:
  "trim (modelInput enteredForm) = ''GSV''"
  "trim (sdcInput enteredForm) = ''A''"
  "trim (dmvInput enteredForm) = ''B''"
  "selectedSystemCode enteredForm = ''32''"
  "unitCountOf enteredForm = 2"
  "dcInput enteredForm 1 = Some ''''"
  "dcInput enteredForm 2 = Some '' 5 ''"
  unfolding unitCountOf_def enteredForm_def by (simp, code_simp)+

lemma trim_examples:
  "trim '' 5 '' = ''5''"
  "trim [] = []"
  by code_simp+

text \<open>
  C7 as amended. When the model, the SDC or the selected system code is empty or the
  variant has more than one character, no code is produced. Otherwise: a unit count that is
  empty gives 0; a unit count that is not positive gives exactly one code, with the unit
  segment \<^verbatim>\<open>00\<close>; a unit count \<open>N > 0\<close> gives exactly \<open>N\<close> codes, the \<open>i\<close>-th with the
  index \<open>i\<close> in decimal, padded with \<^verbatim>\<open>0\<close> to the width 2, as its unit segment (two
  digits up to 99, the index as it is from 100 on). The disassembly code of a unit is
  \<^verbatim>\<open>00\<close> when its input is missing or blank, and the trimmed text of its input padded
  with \<^verbatim>\<open>0\<close> to the width 2 when a text is entered (one character gets one \<^verbatim>\<open>0\<close> in
  front, a longer text is kept). The variant follows the disassembly code in the same
  segment.
\<close>

theorem updateResult_codes:
  "(trim (modelInput f) = [] \<or> trim (sdcInput f) = [] \<or> selectedSystemCode f = []
      \<or> 1 < length (trim (dmvInput f))
    \<longrightarrow> updateResult f = [])
   \<and> (trim (modelInput f) \<noteq> [] \<and> trim (sdcInput f) \<noteq> [] \<and> selectedSystemCode f \<noteq> []
      \<and> length (trim (dmvInput f)) \<le> 1
    \<longrightarrow> (unitCountOf f \<le> 0 \<longrightarrow> updateResult f = [fullCodeOf f ''00'' (dcCodeOf f 0)])
        \<and> (0 < unitCountOf f \<longrightarrow>
             length (updateResult f) = nat (unitCountOf f)
             \<and> (\<forall>i. 1 \<le> i \<and> i \<le> nat (unitCountOf f) \<longrightarrow>
                   updateResult f ! (i - 1)
                   = fullCodeOf f (padStart (numberToString i) 2 CHR ''0'') (dcCodeOf f i))))
   \<and> fullCodeOf f unitCode dcCode
       = trim (modelInput f) @ ''-'' @ trim (sdcInput f) @ ''-'' @ selectedSystemCode f @ ''-''
         @ selectedSubsystemCode f @ ''-'' @ unitCode @ ''-'' @ dcCode @ trim (dmvInput f)
         @ ''-'' @ finalInfoCodeOf f @ ''-D''
   \<and> (unitCountInput f = [] \<longrightarrow> unitCountOf f = 0)
   \<and> (\<forall>i. i \<le> 99 \<longrightarrow>
        padStart (numberToString i) 2 CHR ''0'' = [digitChar (i div 10), digitChar (i mod 10)])
   \<and> (\<forall>i. 100 \<le> i \<longrightarrow>
        padStart (numberToString i) 2 CHR ''0'' = numberToString i
        \<and> 3 \<le> length (numberToString i))
   \<and> (\<forall>u. dcInput f u = None \<or> (\<exists>v. dcInput f u = Some v \<and> trim v = [])
        \<longrightarrow> dcCodeOf f u = ''00'')
   \<and> (\<forall>u v. dcInput f u = Some v \<longrightarrow>
        dcCodeOf f u
        = (if trim v = [] then ''00''
           else if length (trim v) = 1 then CHR ''0'' # trim v
           else trim v))"
proof -
  have rejected: "trim (modelInput f) = [] \<or> trim (sdcInput f) = [] \<or> selectedSystemCode f = []
      \<or> 1 < length (trim (dmvInput f))
    \<longrightarrow> updateResult f = []"
    using updateResult_rejected by blast
  have zero: "trim (modelInput f) \<noteq> [] \<and> trim (sdcInput f) \<noteq> [] \<and> selectedSystemCode f \<noteq> []
      \<and> length (trim (dmvInput f)) \<le> 1
    \<longrightarrow> (unitCountOf f \<le> 0 \<longrightarrow> updateResult f = [fullCodeOf f ''00'' (dcCodeOf f 0)])"
    using updateResult_no_units by blast
  have len: "trim (modelInput f) \<noteq> [] \<and> trim (sdcInput f) \<noteq> [] \<and> selectedSystemCode f \<noteq> []
      \<and> length (trim (dmvInput f)) \<le> 1
    \<longrightarrow> (0 < unitCountOf f \<longrightarrow> length (updateResult f) = nat (unitCountOf f))"
    using updateResult_units [of f] by (simp del: upt_Suc)
  have nth: "trim (modelInput f) \<noteq> [] \<and> trim (sdcInput f) \<noteq> [] \<and> selectedSystemCode f \<noteq> []
      \<and> length (trim (dmvInput f)) \<le> 1
    \<longrightarrow> (0 < unitCountOf f \<longrightarrow> (\<forall>i. 1 \<le> i \<and> i \<le> nat (unitCountOf f) \<longrightarrow>
                  updateResult f ! (i - 1)
                  = fullCodeOf f (padStart (numberToString i) 2 CHR ''0'') (dcCodeOf f i)))"
    using updateResult_nth [of f] by blast
  have shape: "fullCodeOf f unitCode dcCode
           = trim (modelInput f) @ ''-'' @ trim (sdcInput f) @ ''-'' @ selectedSystemCode f @ ''-''
             @ selectedSubsystemCode f @ ''-'' @ unitCode @ ''-'' @ dcCode @ trim (dmvInput f)
             @ ''-'' @ finalInfoCodeOf f @ ''-D''"
    by (simp add: fullCodeOf_def Let_def)
  have unspecified: "unitCountInput f = [] \<longrightarrow> unitCountOf f = 0"
    by (simp add: unitCountOf_def parseInt_empty)
  have digits: "\<forall>i. i \<le> 99 \<longrightarrow>
            padStart (numberToString i) 2 CHR ''0'' = [digitChar (i div 10), digitChar (i mod 10)]"
    using unitCode_two_digits by blast
  have long: "\<forall>i. 100 \<le> i \<longrightarrow>
            padStart (numberToString i) 2 CHR ''0'' = numberToString i
            \<and> 3 \<le> length (numberToString i)"
    using numberToString_length by (fastforce simp: padStart_def)
  have blank: "\<forall>u. dcInput f u = None \<or> (\<exists>v. dcInput f u = Some v \<and> trim v = [])
            \<longrightarrow> dcCodeOf f u = ''00''"
    using dcCodeOf_default by blast
  have entered: "\<forall>u v. dcInput f u = Some v \<longrightarrow>
        dcCodeOf f u
        = (if trim v = [] then ''00''
           else if length (trim v) = 1 then CHR ''0'' # trim v
           else trim v)"
    using dcCodeOf_entered [of f] padStart_two by metis
  from rejected zero len nth shape unspecified digits long blank entered
  show ?thesis by blast
qed

theorem updateResult_codes_witness:
  "trim (modelInput enteredForm) \<noteq> []
   \<and> trim (sdcInput enteredForm) \<noteq> []
   \<and> selectedSystemCode enteredForm \<noteq> []
   \<and> length (trim (dmvInput enteredForm)) \<le> 1
   \<and> unitCountOf enteredForm = 2
   \<and> length (updateResult enteredForm) = 2
   \<and> updateResult enteredForm ! 0 = ''GSV-A-32-40-01-00B-040A-D''
   \<and> updateResult enteredForm ! 1 = ''GSV-A-32-40-02-05B-040A-D''
   \<and> dcCodeOf enteredForm 1 = ''00''
   \<and> dcCodeOf enteredForm 2 = ''05''
   \<and> unitCountOf (exampleForm ''GSV'' '''') = 0
   \<and> updateResult (exampleForm ''GSV'' '''') = [''GSV-A-32-40-00-00-000-D'']
   \<and> trim (modelInput (exampleForm '''' ''3'')) = []
   \<and> updateResult (exampleForm '''' ''3'') = []"
proof -
  note entered = updateResult_codes [of enteredForm "[]" "[]"]
  note none = updateResult_codes [of "exampleForm ''GSV'' ''''" "[]" "[]"]
  note rejected = updateResult_codes [of "exampleForm '''' ''3''" "[]" "[]"]
  have g: "trim (modelInput enteredForm) \<noteq> []" "trim (sdcInput enteredForm) \<noteq> []"
      "selectedSystemCode enteredForm \<noteq> []" "length (trim (dmvInput enteredForm)) \<le> 1"
    by (simp_all add: enteredForm_values)
  have c: "unitCountOf enteredForm = 2" "unitCountOf (exampleForm ''GSV'' '''') = 0"
    by (simp_all add: enteredForm_values exampleForm_unitCount)
  have len: "length (updateResult enteredForm) = 2"
    using entered g c by simp
  have nth: "1 \<le> i \<and> i \<le> 2 \<Longrightarrow> updateResult enteredForm ! (i - 1)
               = fullCodeOf enteredForm (padStart (numberToString i) 2 CHR ''0'')
                   (dcCodeOf enteredForm i)" for i
    using entered g c by simp
  have d1: "dcCodeOf enteredForm 1 = ''00''"
    using entered enteredForm_values(6) trim_examples by simp
  have d2: "dcCodeOf enteredForm 2 = ''05''"
    using entered enteredForm_values(7) trim_examples by simp
  have e: "fullCodeOf enteredForm (padStart (numberToString 1) 2 CHR ''0'') ''00''
             = ''GSV-A-32-40-01-00B-040A-D''"
     "fullCodeOf enteredForm (padStart (numberToString 2) 2 CHR ''0'') ''05''
             = ''GSV-A-32-40-02-05B-040A-D''"
     "fullCodeOf (exampleForm ''GSV'' '''') ''00'' (dcCodeOf (exampleForm ''GSV'' '''') 0)
        = ''GSV-A-32-40-00-00-000-D''"
    by code_simp+
  have n0: "updateResult enteredForm ! 0 = ''GSV-A-32-40-01-00B-040A-D''"
    using nth [of 1] d1 e(1) by simp
  have n1: "updateResult enteredForm ! 1 = ''GSV-A-32-40-02-05B-040A-D''"
    using nth [of 2] d2 e(2) by simp
  have z: "updateResult (exampleForm ''GSV'' '''') = [''GSV-A-32-40-00-00-000-D'']"
    using none exampleForm_accepted [of "''''"] c e(3) by simp
  have m: "trim (modelInput (exampleForm '''' ''3'')) = []"
    by (simp add: exampleForm_def trim_def)
  have r: "updateResult (exampleForm '''' ''3'') = []"
    using rejected m by blast
  from g c len n0 n1 d1 d2 z m r show ?thesis by blast
qed

end
